theory Spec2Isabelle
  imports Complex_Main "HOL-Library.Word" "HOL-Library.AList"
begin

unbundle bit_operations_syntax

section \<open>The M3 codec of m3.py: data model\<close>

text \<open>
  Python values are modelled by one datatype. Python integers are unbounded, so they are
  \<open>int\<close>. A Python float is modelled by the real number it denotes. A \<open>str\<close> is a list of
  characters with code points below 256, which is what \<open>chr\<close> of a byte produces; \<open>bytes\<close>
  and \<open>bytearray\<close> are lists of 8-bit words.

  An exception of the source is a value of type \<open>error\<close>. m3.py has no handler that
  resumes after an exception (its one \<open>except\<close> re-raises), so a raised exception ends the
  load or save, and a function that may raise returns \<open>error + result\<close> with the updated
  state inside the result.
\<close>

type_synonym byte = "8 word"

datatype error =
    AttributeError
  | KeyError
  | IndexError
  | TypeError
  | ValueError
  | StructError
  | UnicodeEncodeError
  | SizeMismatch string int int int
  | ReferencesMoreElements
  | WrongReferentTag string string
  | NotMarkedAsReference string
  | UnexpectedValue
  | SectionSizeCalculationFailed int nat
  | ExpectedString
  | ExpectedByteArray
  | CannotMeasureLength

text \<open>
  Modelled from the spec: the field lists of the structures \<open>Reference\<close> and
  \<open>MD34IndexEntry\<close> are declared in structures.xml, which is not among the sources. The
  spec gives a Reference record as (entries, index, flags) and an index entry as
  (tag, offset, repetitions, version); these are the attributes m3.py reads and writes.
\<close>

record reference =
  entries :: int
  index :: int
  flags :: int

record indexEntry =
  tag :: string
  offset :: int
  repetitions :: int
  version :: int

text \<open>
  An instance of class \<open>M3Structure\<close> is the name of its structure description and its
  attribute dictionary (\<open>setattr\<close>/\<open>getattr\<close> by field name).
\<close>

datatype pyval =
    PyNone
  | PyInt int
  | PyFloat real
  | PyStr string
  | PyBytes "byte list"
  | PyList "pyval list"
  | PyReference reference
  | PyStructure m3Structure
and m3Structure =
    M3Structure (structureName_of: string) (attrs: "(string \<times> pyval) list")

fun getattr :: "m3Structure \<Rightarrow> string \<Rightarrow> error + pyval" where
  "getattr (M3Structure d as) n =
     (case map_of as n of None \<Rightarrow> Inl AttributeError | Some v \<Rightarrow> Inr v)"

fun setattr :: "m3Structure \<Rightarrow> string \<Rightarrow> pyval \<Rightarrow> m3Structure" where
  "setattr (M3Structure d as) n v = M3Structure d (AList.update n v as)"

text \<open>Python list indexing \<open>xs[i]\<close>: a negative index counts from the end.\<close>

definition list_index :: "'a list \<Rightarrow> int \<Rightarrow> error + nat" where
  "list_index xs i =
     (if 0 \<le> i \<and> i < int (length xs) then Inr (nat i)
      else if i < 0 \<and> - int (length xs) \<le> i then Inr (nat (int (length xs) + i))
      else Inl IndexError)"

subsection \<open>Fields and structure descriptions\<close>

text \<open>
  Class \<open>Field\<close> with the \<open>size\<close> attribute every subclass sets. The subclasses below
  extend this record as the Python classes extend \<open>Field\<close>.
\<close>

record field =
  name :: string
  sinceVersion :: "int option"
  tillVersion :: "int option"
  size_f :: int

definition structureNamesOfPrimitiveTypes :: "string list" where
  "structureNamesOfPrimitiveTypes =
     [''CHAR'', ''U8__'', ''REAL'', ''I16_'', ''U16_'', ''I32_'', ''U32_'', ''FLAG'']"

text \<open>
  Class \<open>M3StructureDescription\<close>. The Python object also keeps a pointer \<open>history\<close> back
  to the history that built it; the model leaves that cyclic pointer out.
\<close>

record m3StructureDescription =
  structureName :: string
  structureVersion :: int
  fields_d :: "field list"
  size_d :: int
  isPrimitive_d :: bool
  nameToFieldMap :: "string \<rightharpoonup> field"

text \<open>
  \<open>M3StructureDescription.__init__\<close>: the sizes of the fields are added up and compared
  with the specified size; a mismatch raises. Writing the offsets to stderr does not
  change any value.
\<close>

definition calculatedSize :: "field list \<Rightarrow> int" where
  "calculatedSize fs = fold (\<lambda>f acc. acc + size_f f) fs 0"

definition makeNameToFieldMap :: "field list \<Rightarrow> (string \<rightharpoonup> field)" where
  "makeNameToFieldMap fs = fold (\<lambda>f m. m(name f \<mapsto> f)) fs Map.empty"

definition M3StructureDescription_init ::
  "string \<Rightarrow> int \<Rightarrow> field list \<Rightarrow> int \<Rightarrow> error + m3StructureDescription" where
  "M3StructureDescription_init sName sVersion fs specifiedSize =
     (if calculatedSize fs \<noteq> specifiedSize
      then Inl (SizeMismatch sName sVersion specifiedSize (calculatedSize fs))
      else Inr \<lparr> structureName = sName, structureVersion = sVersion, fields_d = fs,
                 size_d = specifiedSize,
                 isPrimitive_d = (sName \<in> set structureNamesOfPrimitiveTypes),
                 nameToFieldMap = makeNameToFieldMap fs \<rparr>)"

text \<open>Class \<open>M3StructureHistory\<close>.\<close>

record m3StructureHistory =
  name_h :: string
  versionToSizeMap :: "int \<rightharpoonup> int"
  allFields :: "field list"
  versionToStructureDescriptionMap :: "int \<rightharpoonup> m3StructureDescription"
  isPrimitive :: bool

definition M3StructureHistory_init ::
  "string \<Rightarrow> (int \<rightharpoonup> int) \<Rightarrow> field list \<Rightarrow> m3StructureHistory" where
  "M3StructureHistory_init n vmap fs =
     \<lparr> name_h = n, versionToSizeMap = vmap, allFields = fs,
       versionToStructureDescriptionMap = Map.empty,
       isPrimitive = (n \<in> set structureNamesOfPrimitiveTypes) \<rparr>"

text \<open>The body of the loop of \<open>getVersion\<close> that decides whether a field is used.\<close>

definition includeField :: "int \<Rightarrow> field \<Rightarrow> bool" where
  "includeField v f =
     (let inc = True;
          inc = (if sinceVersion f \<noteq> None \<and> v < the (sinceVersion f) then False else inc);
          inc = (if tillVersion f \<noteq> None \<and> v > the (tillVersion f) then False else inc)
      in inc)"

definition usedFields :: "m3StructureHistory \<Rightarrow> int \<Rightarrow> field list" where
  "usedFields h v = filter (includeField v) (allFields h)"

text \<open>
  \<open>M3StructureHistory.getVersion\<close>: the result is the description or \<open>None\<close>, together
  with the history, whose cache may have grown.
\<close>

definition getVersion ::
  "m3StructureHistory \<Rightarrow> int \<Rightarrow> error + (m3StructureDescription option \<times> m3StructureHistory)" where
  "getVersion h v =
     (case versionToStructureDescriptionMap h v of
        Some structure \<Rightarrow> Inr (Some structure, h)
      | None \<Rightarrow>
          (case versionToSizeMap h v of
             None \<Rightarrow> Inr (None, h)
           | Some specifiedSize \<Rightarrow>
               (case M3StructureDescription_init (name_h h) v (usedFields h v) specifiedSize of
                  Inl e \<Rightarrow> Inl e
                | Inr structure \<Rightarrow>
                    Inr (Some structure,
                         h\<lparr> versionToStructureDescriptionMap :=
                              (versionToStructureDescriptionMap h)(v \<mapsto> structure) \<rparr>))))"

text \<open>Any number of \<open>getVersion\<close> calls on one history, in order.\<close>

fun getVersions :: "m3StructureHistory \<Rightarrow> int list \<Rightarrow> error + m3StructureHistory" where
  "getVersions h [] = Inr h"
| "getVersions h (v # vs) =
     (case getVersion h v of Inl e \<Rightarrow> Inl e | Inr (d, h') \<Rightarrow> getVersions h' vs)"

definition createEmptyArray :: "m3StructureHistory \<Rightarrow> pyval" where
  "createEmptyArray h =
     (if name_h h = ''CHAR'' then PyNone
      else if name_h h = ''U8__'' then PyBytes []
      else PyList [])"

subsection \<open>Packing bytes\<close>

text \<open>
  \<open>struct.Struct.unpack_from(buffer, offset)\<close> and \<open>pack_into(buffer, offset, ...)\<close> for
  a format of \<open>n\<close> bytes: both raise \<open>struct.error\<close> when the buffer has fewer than \<open>n\<close>
  bytes from the offset on; \<open>pack_into\<close> overwrites in place and never resizes the buffer.
  Every offset m3.py passes starts at 0 and grows by field sizes, so offsets are \<open>nat\<close>.
\<close>

definition unpack_from :: "nat \<Rightarrow> byte list \<Rightarrow> nat \<Rightarrow> error + byte list" where
  "unpack_from n buffer ofs =
     (if ofs + n \<le> length buffer then Inr (take n (drop ofs buffer)) else Inl StructError)"

definition pack_into :: "byte list \<Rightarrow> nat \<Rightarrow> byte list \<Rightarrow> error + byte list" where
  "pack_into buffer ofs bs =
     (if ofs + length bs \<le> length buffer
      then Inr (take ofs buffer @ bs @ drop (ofs + length bs) buffer)
      else Inl StructError)"

text \<open>\<open>chr\<close> of a byte, and \<open>str.encode("ascii")\<close>, which raises on a code point above 127.\<close>

definition chr :: "byte \<Rightarrow> char" where
  "chr b = char_of (unat b)"

definition encode_ascii :: "string \<Rightarrow> error + byte list" where
  "encode_ascii s =
     (if \<forall>c \<in> set s. (of_char c :: nat) < 128 then Inr (map of_char s)
      else Inl UnicodeEncodeError)"

text \<open>\<open>len(x)\<close> and iteration \<open>for value in x\<close> over a Python value.\<close>

fun py_len :: "pyval \<Rightarrow> error + int" where
  "py_len (PyStr s) = Inr (int (length s))"
| "py_len (PyBytes bs) = Inr (int (length bs))"
| "py_len (PyList vs) = Inr (int (length vs))"
| "py_len _ = Inl TypeError"

fun py_iter :: "pyval \<Rightarrow> error + pyval list" where
  "py_iter (PyStr s) = Inr (map (\<lambda>c. PyStr [c]) s)"
| "py_iter (PyBytes bs) = Inr (map (\<lambda>b. PyInt (uint b)) bs)"
| "py_iter (PyList vs) = Inr vs"
| "py_iter _ = Inl TypeError"

subsection \<open>TagField\<close>

text \<open>
  Class \<open>TagField\<close> has no attribute beyond those of \<open>Field\<close>; its format is \<open><4B\<close>.
  \<open>writeToBuffer\<close> on an attribute that is not a \<open>str\<close> is modelled as a \<open>TypeError\<close>.
\<close>

definition TagField_readFromBuffer ::
  "field \<Rightarrow> m3Structure \<Rightarrow> byte list \<Rightarrow> nat \<Rightarrow> bool \<Rightarrow> error + m3Structure" where
  "TagField_readFromBuffer f owner buffer ofs checkExpectedValue =
     (case unpack_from 4 buffer ofs of
        Inl e \<Rightarrow> Inl e
      | Inr b \<Rightarrow>
          (let s = (if b ! 3 = 0 then [chr (b ! 2), chr (b ! 1), chr (b ! 0)]
                    else [chr (b ! 3), chr (b ! 2), chr (b ! 1), chr (b ! 0)])
           in Inr (setattr owner (name f) (PyStr s))))"

definition TagField_writeToBuffer ::
  "field \<Rightarrow> m3Structure \<Rightarrow> byte list \<Rightarrow> nat \<Rightarrow> error + byte list" where
  "TagField_writeToBuffer f owner buffer ofs =
     (case getattr owner (name f) of
        Inl e \<Rightarrow> Inl e
      | Inr (PyStr s) \<Rightarrow>
          (case (if length s = 4 then encode_ascii [s ! 3, s ! 2, s ! 1, s ! 0]
                 else if length s < 3 then Inl IndexError
                 else (case encode_ascii [s ! 2, s ! 1, s ! 0] of
                         Inl e \<Rightarrow> Inl e
                       | Inr bs \<Rightarrow> Inr (bs @ [0]))) of
             Inl e \<Rightarrow> Inl e
           | Inr b \<Rightarrow> pack_into buffer ofs [b ! 0, b ! 1, b ! 2, b ! 3])
      | Inr _ \<Rightarrow> Inl TypeError)"

subsection \<open>PrimitiveField, IntField and Fixed8Field\<close>

record primitiveField = field +
  typeString :: string
  defaultValue :: pyval
  expectedValue :: pyval

record intField = primitiveField +
  minValue :: int
  maxValue :: int
  bitMaskMap :: "string \<rightharpoonup> int"

text \<open>
  \<open>IntField.getNamedBit\<close> and \<open>IntField.setNamedBit\<close>. A bit name outside the map is a
  \<open>KeyError\<close>; \<open>&\<close> on an attribute that is not an integer is a \<open>TypeError\<close>.
\<close>

definition IntField_getNamedBit :: "'a intField_scheme \<Rightarrow> m3Structure \<Rightarrow> string \<Rightarrow> error + bool" where
  "IntField_getNamedBit f owner bitName =
     (case bitMaskMap f bitName of
        None \<Rightarrow> Inl KeyError
      | Some bitmask \<Rightarrow>
          (case getattr owner (name f) of
             Inl e \<Rightarrow> Inl e
           | Inr (PyInt intValue) \<Rightarrow> Inr ((intValue AND bitmask) \<noteq> 0)
           | Inr _ \<Rightarrow> Inl TypeError))"

definition IntField_setNamedBit ::
  "'a intField_scheme \<Rightarrow> m3Structure \<Rightarrow> string \<Rightarrow> bool \<Rightarrow> error + m3Structure" where
  "IntField_setNamedBit f owner bitName val =
     (case bitMaskMap f bitName of
        None \<Rightarrow> Inl KeyError
      | Some bitmask \<Rightarrow>
          (case getattr owner (name f) of
             Inl e \<Rightarrow> Inl e
           | Inr (PyInt intValue) \<Rightarrow>
               (if val then Inr (setattr owner (name f) (PyInt (intValue OR bitmask)))
                else if (intValue AND bitmask) \<noteq> 0
                     then Inr (setattr owner (name f) (PyInt (intValue XOR bitmask)))
                     else Inr owner)
           | Inr _ \<Rightarrow> Inl TypeError))"




subsection \<open>Sections\<close>

definition increaseToValidSectionSize :: "int \<Rightarrow> int" where
  "increaseToValidSectionSize sz =
     (let blockSize = 16; incompleteBlockBytes = sz mod blockSize
      in if incompleteBlockBytes \<noteq> 0
         then (let missingBytesToCompleteBlock = blockSize - incompleteBlockBytes
               in sz + missingBytesToCompleteBlock)
         else sz)"

text \<open>
  Class \<open>Section\<close>. \<open>rawBytes\<close> is \<open>None\<close> until it has been determined. The paths modelled
  here only meet sections that have their content: the load path resolves references after
  every section of a known structure got its content, and the save path creates each section
  with its content.
\<close>

record Section =
  indexEntry :: indexEntry
  structureDescription :: m3StructureDescription
  content :: pyval
  rawBytes :: "byte list option"
  timesReferenced :: int

definition countInstances :: "m3StructureDescription \<Rightarrow> pyval \<Rightarrow> error + int" where
  "countInstances d instances =
     (if structureName d = ''CHAR''
      then (if instances = PyNone then Inr 0
            else (case py_len instances of Inl e \<Rightarrow> Inl e | Inr n \<Rightarrow> Inr (n + 1)))
      else (case py_len instances of
              Inr n \<Rightarrow> Inr n
            | Inl e \<Rightarrow> Inl CannotMeasureLength))"

definition countBytesRequiredForInstances :: "m3StructureDescription \<Rightarrow> pyval \<Rightarrow> error + int" where
  "countBytesRequiredForInstances d instances =
     (if structureName d = ''CHAR''
      then (case py_len instances of Inl e \<Rightarrow> Inl e | Inr n \<Rightarrow> Inr (n + 1))
      else (case countInstances d instances of
              Inl e \<Rightarrow> Inl e
            | Inr n \<Rightarrow> Inr (size_d d * n)))"

text \<open>
  The two loops of \<open>instancesToBytes\<close> write one entry after the other into a buffer
  allocated beforehand, \<open>size\<close> bytes apart. The argument \<open>pack\<close> stands for the bytes
  that \<open>structFormat.pack_into\<close> (primitive structures) or the entry's own
  \<open>writeToBuffer\<close> (all others) puts down for one entry. The offsets of the loop start at
  0 and grow by a size that is not negative once the buffer could be allocated, so the
  branch for a negative offset is never taken.
\<close>

fun writeInstances ::
  "(pyval \<Rightarrow> error + byte list) \<Rightarrow> int \<Rightarrow> pyval list \<Rightarrow> byte list \<Rightarrow> int \<Rightarrow> error + byte list" where
  "writeInstances pack sz [] buffer ofs = Inr buffer"
| "writeInstances pack sz (v # vs) buffer ofs =
     (case pack v of
        Inl e \<Rightarrow> Inl e
      | Inr bs \<Rightarrow>
          (if ofs < 0 then Inl StructError
           else (case pack_into buffer (nat ofs) bs of
                   Inl e \<Rightarrow> Inl e
                 | Inr buffer' \<Rightarrow> writeInstances pack sz vs buffer' (ofs + sz))))"

definition instancesToBytes ::
  "(pyval \<Rightarrow> error + byte list) \<Rightarrow> m3StructureDescription \<Rightarrow> pyval \<Rightarrow> error + byte list" where
  "instancesToBytes pack d instances =
     (if structureName d = ''CHAR''
      then (case instances of
              PyStr s \<Rightarrow>
                (case encode_ascii s of Inl e \<Rightarrow> Inl e | Inr bs \<Rightarrow> Inr (bs @ [0]))
            | _ \<Rightarrow> Inl ExpectedString)
      else if structureName d = ''U8__''
      then (case instances of
              PyBytes bs \<Rightarrow> Inr bs
            | _ \<Rightarrow> Inl ExpectedByteArray)
      else (case py_len instances of
              Inl e \<Rightarrow> Inl e
            | Inr n \<Rightarrow>
                (if size_d d * n < 0 then Inl ValueError
                 else (case py_iter instances of
                         Inl e \<Rightarrow> Inl e
                       | Inr vs \<Rightarrow>
                           writeInstances pack (size_d d) vs
                             (replicate (nat (size_d d * n)) 0) 0))))"

definition determineRawBytesWithData ::
  "(pyval \<Rightarrow> error + byte list) \<Rightarrow> Section \<Rightarrow> error + byte list" where
  "determineRawBytesWithData pack s = instancesToBytes pack (structureDescription s) (content s)"

definition bytesRequiredForContent :: "Section \<Rightarrow> error + int" where
  "bytesRequiredForContent s = countBytesRequiredForInstances (structureDescription s) (content s)"

text \<open>
  \<open>Section.determineFieldRawBytes\<close>. When padding is needed the source allocates a zeroed
  buffer of the section size, assigns the content bytes to its first slice and then
  overwrites every later position with \<open>0xaa\<close>.
\<close>

definition determineFieldRawBytes ::
  "(pyval \<Rightarrow> error + byte list) \<Rightarrow> Section \<Rightarrow> error + Section" where
  "determineFieldRawBytes pack s =
     (case determineRawBytesWithData pack s of
        Inl e \<Rightarrow> Inl e
      | Inr minRawBytes \<Rightarrow>
          (case bytesRequiredForContent s of
             Inl e \<Rightarrow> Inl e
           | Inr required \<Rightarrow>
               (if int (length minRawBytes) \<noteq> required
                then Inl (SectionSizeCalculationFailed required (length minRawBytes))
                else (let sectionSize = increaseToValidSectionSize (int (length minRawBytes))
                      in if int (length minRawBytes) = sectionSize
                         then Inr (s\<lparr> rawBytes := Some minRawBytes \<rparr>)
                         else (let buf = replicate (nat sectionSize) 0;
                                   buf = minRawBytes @ drop (length minRawBytes) buf;
                                   buf = fold (\<lambda>i b. b[i := 0xAA])
                                           [length minRawBytes ..< nat sectionSize] buf
                               in Inr (s\<lparr> rawBytes := Some buf \<rparr>))))))"

subsection \<open>ReferenceField\<close>

record referenceField = field +
  referenceStructureDescription :: m3StructureDescription
  historyOfReferencedStructures :: "m3StructureHistory option"

definition ReferenceField_setToDefault :: "'a referenceField_scheme \<Rightarrow> m3Structure \<Rightarrow> m3Structure" where
  "ReferenceField_setToDefault f owner =
     (let dflt = (case historyOfReferencedStructures f of
                    Some h \<Rightarrow> createEmptyArray h
                  | None \<Rightarrow> PyList [])
      in setattr owner (name f) dflt)"

text \<open>
  \<open>ReferenceField.resolveIndexReferences\<close>. The attribute must hold a Reference record,
  else reading \<open>ref.entries\<close> raises. The counter of the referenced section is incremented
  before the checks.
\<close>

definition ReferenceField_resolveIndexReferences ::
  "'a referenceField_scheme \<Rightarrow> m3Structure \<Rightarrow> Section list \<Rightarrow> error + (m3Structure \<times> Section list)" where
  "ReferenceField_resolveIndexReferences f owner sections =
     (case getattr owner (name f) of
        Inl e \<Rightarrow> Inl e
      | Inr (PyReference ref) \<Rightarrow>
          (if entries ref = 0
           then (let referencedObjects =
                       (case historyOfReferencedStructures f of
                          None \<Rightarrow> PyList []
                        | Some h \<Rightarrow> createEmptyArray h)
                 in Inr (setattr owner (name f) referencedObjects, sections))
           else (case list_index sections (index ref) of
                   Inl e \<Rightarrow> Inl e
                 | Inr i \<Rightarrow>
                     (let referencedSection =
                            (sections ! i)\<lparr> timesReferenced := timesReferenced (sections ! i) + 1 \<rparr>;
                          sections' = sections[i := referencedSection];
                          ie = indexEntry referencedSection
                      in if repetitions ie < entries ref then Inl ReferencesMoreElements
                         else (let referencedObjects = content referencedSection
                               in (case historyOfReferencedStructures f of
                                     Some h \<Rightarrow>
                                       (let expectedTagName = name_h h; actualTagName = tag ie
                                        in if actualTagName \<noteq> expectedTagName
                                           then Inl (WrongReferentTag expectedTagName actualTagName)
                                           else Inr (setattr owner (name f) referencedObjects,
                                                     sections'))
                                   | None \<Rightarrow> Inl (NotMarkedAsReference (tag ie)))))))
      | Inr _ \<Rightarrow> Inl AttributeError)"

subsection \<open>IndexReferenceSourceAndSectionListMaker\<close>

text \<open>
  A Python object handed to the index maker is its identity \<open>id(obj)\<close> together with its
  current value: two objects with equal values may have different identities.
\<close>

type_synonym pyobject = "nat \<times> pyval"

record IndexMaker =
  objectsIdToIndexReferenceMap :: "nat \<rightharpoonup> reference"
  offset_m :: int
  nextFreeIndexPosition :: int
  sections_m :: "Section list"

definition IndexMaker_init :: IndexMaker where
  "IndexMaker_init =
     \<lparr> objectsIdToIndexReferenceMap = Map.empty, offset_m = 0,
       nextFreeIndexPosition = 0, sections_m = [] \<rparr>"

text \<open>
  \<open>getIndexReferenceTo\<close>. The argument \<open>referenceDefault\<close> is the instance that
  \<open>referenceStructureDescription.createInstance()\<close> builds from the default values of the
  schema; its \<open>entries\<close> and \<open>index\<close> are overwritten at once.
\<close>

definition getIndexReferenceTo ::
  "IndexMaker \<Rightarrow> pyobject \<Rightarrow> reference \<Rightarrow> m3StructureDescription option
     \<Rightarrow> error + (reference \<times> IndexMaker)" where
  "getIndexReferenceTo m objectsToSave referenceDefault sd =
     (case objectsIdToIndexReferenceMap m (fst objectsToSave) of
        Some r \<Rightarrow> Inr (r, m)
      | None \<Rightarrow>
          (case (case sd of
                   None \<Rightarrow> Inr 0
                 | Some d \<Rightarrow> countInstances d (snd objectsToSave)) of
             Inl e \<Rightarrow> Inl e
           | Inr reps \<Rightarrow>
               (let indexReference =
                      referenceDefault\<lparr> entries := reps, index := nextFreeIndexPosition m \<rparr>
                in if reps > 0
                   then (case sd of
                           None \<Rightarrow> Inl AttributeError
                         | Some d \<Rightarrow>
                             (let ie = \<lparr> tag = structureName d, offset = offset_m m,
                                         repetitions = reps, version = structureVersion d \<rparr>;
                                  sec = \<lparr> indexEntry = ie, structureDescription = d,
                                          content = snd objectsToSave, rawBytes = None,
                                          timesReferenced = 0 \<rparr>
                              in (case bytesRequiredForContent sec of
                                    Inl e \<Rightarrow> Inl e
                                  | Inr totalBytes \<Rightarrow>
                                      Inr (indexReference,
                                           m\<lparr> objectsIdToIndexReferenceMap :=
                                                (objectsIdToIndexReferenceMap m)
                                                  (fst objectsToSave \<mapsto> indexReference),
                                              offset_m := offset_m m
                                                + increaseToValidSectionSize totalBytes,
                                              nextFreeIndexPosition := nextFreeIndexPosition m + 1,
                                              sections_m := sections_m m @ [sec] \<rparr>))))
                   else Inr (indexReference, m))))"

text \<open>
  A run of \<open>getIndexReferenceTo\<close> calls on one index maker, as the walk of
  \<open>introduceIndexReferences\<close> over the object graph makes them; the references returned are
  collected in call order.
\<close>

type_synonym indexCall = "pyobject \<times> reference \<times> m3StructureDescription option"

fun getIndexReferences ::
  "IndexMaker \<Rightarrow> indexCall list \<Rightarrow> error + (reference list \<times> IndexMaker)" where
  "getIndexReferences m [] = Inr ([], m)"
| "getIndexReferences m ((obj, rd, sd) # cs) =
     (case getIndexReferenceTo m obj rd sd of
        Inl e \<Rightarrow> Inl e
      | Inr (r, m') \<Rightarrow>
          (case getIndexReferences m' cs of
             Inl e \<Rightarrow> Inl e
           | Inr (rs, m'') \<Rightarrow> Inr (r # rs, m'')))"

subsection \<open>Invariants and example values\<close>

text \<open>
  The cache of a history only holds versions that the version-to-size map declares.
\<close>

definition cache_ok :: "m3StructureHistory \<Rightarrow> bool" where
  "cache_ok h =
     (\<forall>v. versionToSizeMap h v = None \<longrightarrow> versionToStructureDescriptionMap h v = None)"

text \<open>
  A history with three fields: \<open>x\<close> in every version, \<open>y\<close> since version 1, \<open>z\<close> till
  version 0. Versions 0 and 1 declare the right sizes, version 2 a wrong one.
\<close>

definition exampleFields :: "field list" where
  "exampleFields =
     [\<lparr> name = ''x'', sinceVersion = None, tillVersion = None, size_f = 4 \<rparr>,
      \<lparr> name = ''y'', sinceVersion = Some 1, tillVersion = None, size_f = 4 \<rparr>,
      \<lparr> name = ''z'', sinceVersion = None, tillVersion = Some 0, size_f = 2 \<rparr>]"

definition exampleHistory :: m3StructureHistory where
  "exampleHistory =
     M3StructureHistory_init ''VEC_'' [0 \<mapsto> 6, 1 \<mapsto> 8, 2 \<mapsto> 12] exampleFields"

text \<open>A tag field named \<open>tag\<close>, and an owner that holds a given value under that name.\<close>

definition exampleTagField :: field where
  "exampleTagField = \<lparr> name = ''tag'', sinceVersion = None, tillVersion = None, size_f = 4 \<rparr>"

definition exampleTagOwner :: "pyval \<Rightarrow> m3Structure" where
  "exampleTagOwner v = M3Structure ''MD34IndexEntry'' [(''tag'', v)]"

text \<open>
  An integer field \<open>flags\<close> with four named bits: two single-bit masks, a mask of two
  bits and a mask of no bit; and an owner with that field and one more.
\<close>

definition exampleIntField :: intField where
  "exampleIntField =
     \<lparr> name = ''flags'', sinceVersion = None, tillVersion = None, size_f = 4,
       typeString = ''uint32'', defaultValue = PyInt 0, expectedValue = PyNone,
       minValue = 0, maxValue = 4294967295,
       bitMaskMap = [''first'' \<mapsto> 1, ''third'' \<mapsto> 4, ''pair'' \<mapsto> 3, ''none'' \<mapsto> 0] \<rparr>"

definition exampleIntOwner :: "int \<Rightarrow> m3Structure" where
  "exampleIntOwner x = M3Structure ''MODL'' [(''flags'', PyInt x), (''nameLength'', PyInt 9)]"

text \<open>
  The description of \<open>Reference\<close> in version 0 with its three 4-byte fields, a reference
  field of a given name that refers to the structure \<open>refTo\<close>, an owner that holds a given
  value under a given name, and a section list: a header section and a section of three
  \<open>BONE\<close> entries.
\<close>

definition exampleReferenceV0 :: m3StructureDescription where
  "exampleReferenceV0 =
     (let fs = [\<lparr> name = ''entries'', sinceVersion = None, tillVersion = None, size_f = 4 \<rparr>,
                \<lparr> name = ''index'', sinceVersion = None, tillVersion = None, size_f = 4 \<rparr>,
                \<lparr> name = ''flags'', sinceVersion = None, tillVersion = None, size_f = 4 \<rparr>]
      in \<lparr> structureName = ''Reference'', structureVersion = 0, fields_d = fs,
            size_d = 12, isPrimitive_d = False, nameToFieldMap = makeNameToFieldMap fs \<rparr>)"

definition exampleReferenceField :: "string \<Rightarrow> string \<Rightarrow> referenceField" where
  "exampleReferenceField fieldName refTo =
     \<lparr> name = fieldName, sinceVersion = None, tillVersion = None, size_f = 12,
       referenceStructureDescription = exampleReferenceV0,
       historyOfReferencedStructures = Some (M3StructureHistory_init refTo [0 \<mapsto> 4] []) \<rparr>"

definition exampleOwner :: "string \<Rightarrow> pyval \<Rightarrow> m3Structure" where
  "exampleOwner fieldName v = M3Structure ''MODL'' [(fieldName, v), (''nameLength'', PyInt 9)]"

definition exampleDescription :: "string \<Rightarrow> int \<Rightarrow> m3StructureDescription" where
  "exampleDescription sName sz =
     \<lparr> structureName = sName, structureVersion = 0, fields_d = [],
       size_d = sz, isPrimitive_d = (sName \<in> set structureNamesOfPrimitiveTypes),
       nameToFieldMap = Map.empty \<rparr>"

definition exampleBones :: pyval where
  "exampleBones =
     PyList [PyStructure (M3Structure ''BONE'' [(''id'', PyInt 1)]),
             PyStructure (M3Structure ''BONE'' [(''id'', PyInt 2)]),
             PyStructure (M3Structure ''BONE'' [(''id'', PyInt 3)])]"

definition exampleSections :: "Section list" where
  "exampleSections =
     [\<lparr> indexEntry = \<lparr> tag = ''MD34'', offset = 0, repetitions = 1, version = 11 \<rparr>,
        structureDescription = exampleDescription ''MD34'' 24,
        content = PyList [], rawBytes = None, timesReferenced = 0 \<rparr>,
      \<lparr> indexEntry = \<lparr> tag = ''BONE'', offset = 32, repetitions = 3, version = 0 \<rparr>,
        structureDescription = exampleDescription ''BONE'' 4,
        content = exampleBones, rawBytes = None, timesReferenced = 0 \<rparr>]"



text \<open>
  A \<open>CHAR\<close> section as the save path creates it, for a string of 36 characters: with the
  terminating NUL its content requires 37 bytes.
\<close>

definition exampleCharSection :: Section where
  "exampleCharSection =
     \<lparr> indexEntry = \<lparr> tag = ''CHAR'', offset = 0, repetitions = 37, version = 0 \<rparr>,
       structureDescription = exampleDescription ''CHAR'' 1,
       content = PyStr ''Assets/Units/Terran/Marine/Marine.m3'',
       rawBytes = None, timesReferenced = 0 \<rparr>"

text \<open>
  What every run of \<open>getIndexReferenceTo\<close> calls keeps true of an index maker: the next free
  index is the number of sections; every remembered reference has entries, points to a
  section of the list, and that section's index entry repeats its entry count; different
  objects are remembered with different indices; and there is one section per remembered
  object.
\<close>

definition maker_ok :: "IndexMaker \<Rightarrow> bool" where
  "maker_ok m \<longleftrightarrow>
     nextFreeIndexPosition m = int (length (sections_m m))
   \<and> (\<forall>i r. objectsIdToIndexReferenceMap m i = Some r \<longrightarrow>
          0 < entries r \<and> 0 \<le> index r \<and> index r < nextFreeIndexPosition m
        \<and> repetitions (indexEntry (sections_m m ! nat (index r))) = entries r)
   \<and> (\<forall>i j r r'. objectsIdToIndexReferenceMap m i = Some r
          \<and> objectsIdToIndexReferenceMap m j = Some r' \<and> index r = index r' \<longrightarrow> i = j)
   \<and> finite (dom (objectsIdToIndexReferenceMap m))
   \<and> card (dom (objectsIdToIndexReferenceMap m)) = length (sections_m m)"

text \<open>
  Calls of \<open>getIndexReferenceTo\<close> on list objects of \<open>BONE\<close> entries. In the first run the
  objects 1 and 2 are different lists with equal elements, and object 1 is handed over
  twice. In the second run object 1 is an empty list, handed over before and after the
  non-empty object 2; for an empty list \<open>getListContentStructureDefinition\<close> gives \<open>None\<close>.
\<close>

definition exampleReference :: reference where
  "exampleReference = \<lparr> entries = 0, index = 0, flags = 0 \<rparr>"

definition exampleSharedCalls :: "indexCall list" where
  "exampleSharedCalls =
     [((1, exampleBones), exampleReference, Some (exampleDescription ''BONE'' 4)),
      ((2, exampleBones), exampleReference, Some (exampleDescription ''BONE'' 4)),
      ((1, exampleBones), exampleReference, Some (exampleDescription ''BONE'' 4))]"

definition exampleEmptyCalls :: "indexCall list" where
  "exampleEmptyCalls =
     [((1, PyList []), exampleReference, None),
      ((2, exampleBones), exampleReference, Some (exampleDescription ''BONE'' 4)),
      ((1, PyList []), exampleReference, None)]"

definition exampleBoneSection :: "int \<Rightarrow> Section" where
  "exampleBoneSection ofs =
     \<lparr> indexEntry = \<lparr> tag = ''BONE'', offset = ofs, repetitions = 3, version = 0 \<rparr>,
       structureDescription = exampleDescription ''BONE'' 4,
       content = exampleBones, rawBytes = None, timesReferenced = 0 \<rparr>"

section \<open>Structure descriptions and their versions\<close>

lemma calculatedSize_sum: "calculatedSize fs = sum_list (map size_f fs)"
proof -
  have "fold (\<lambda>f acc. acc + size_f f) fs a = a + sum_list (map size_f fs)" for a
    by (induction fs arbitrary: a) auto
  then show ?thesis by (simp add: calculatedSize_def)
qed

lemma includeField_iff:
  "includeField v f \<longleftrightarrow>
     (case sinceVersion f of None \<Rightarrow> True | Some s \<Rightarrow> s \<le> v) \<and>
     (case tillVersion f of None \<Rightarrow> True | Some t \<Rightarrow> v \<le> t)"
  by (auto simp: includeField_def Let_def split: option.splits)

lemma exampleHistory_simps:
  "name_h exampleHistory = ''VEC_''"
  "allFields exampleHistory = exampleFields"
  "versionToSizeMap exampleHistory = [0 \<mapsto> 6, 1 \<mapsto> 8, 2 \<mapsto> 12]"
  "versionToStructureDescriptionMap exampleHistory = Map.empty"
  by (simp_all add: exampleHistory_def M3StructureHistory_init_def)

text \<open>
  Claim C4. Take a version \<open>v\<close> that the schema declares with size \<open>declaredSize\<close>, and let
  \<open>visible\<close> be the fields whose version range (since-version to till-version, an absent
  bound being open) includes \<open>v\<close>. Constructing the structure description succeeds if and
  only if the sizes of the visible fields add up to the declared size. On a mismatch the
  constructor, and \<open>getVersion\<close> with it, raises the size-mismatch error. On success the
  description has the declared size and the visible fields, and \<open>getVersion\<close> returns it
  and caches it under \<open>v\<close>.
\<close>

theorem getVersion_size_validation:
  assumes declared: "versionToSizeMap h v = Some declaredSize"
    and fresh: "versionToStructureDescriptionMap h v = None"
    and visible: "visible =
      filter (\<lambda>f. (case sinceVersion f of None \<Rightarrow> True | Some s \<Rightarrow> s \<le> v)
                \<and> (case tillVersion f of None \<Rightarrow> True | Some t \<Rightarrow> v \<le> t)) (allFields h)"
  shows "((\<exists>d. M3StructureDescription_init (name_h h) v visible declaredSize = Inr d)
            \<longleftrightarrow> sum_list (map size_f visible) = declaredSize)
       \<and> (sum_list (map size_f visible) \<noteq> declaredSize \<longrightarrow>
            M3StructureDescription_init (name_h h) v visible declaredSize
              = Inl (SizeMismatch (name_h h) v declaredSize (sum_list (map size_f visible)))
            \<and> getVersion h v
              = Inl (SizeMismatch (name_h h) v declaredSize (sum_list (map size_f visible))))
       \<and> (sum_list (map size_f visible) = declaredSize \<longrightarrow>
            (\<exists>d. M3StructureDescription_init (name_h h) v visible declaredSize = Inr d
                \<and> getVersion h v
                    = Inr (Some d, h\<lparr> versionToStructureDescriptionMap :=
                                         (versionToStructureDescriptionMap h)(v \<mapsto> d) \<rparr>)
                \<and> size_d d = declaredSize \<and> fields_d d = visible
                \<and> structureName d = name_h h \<and> structureVersion d = v))"
proof -
  have used: "usedFields h v = visible"
    unfolding usedFields_def visible by (rule filter_cong) (auto simp: includeField_iff)
  show ?thesis
    by (simp add: getVersion_def declared fresh used M3StructureDescription_init_def
        calculatedSize_sum)
qed

theorem getVersion_size_validation_witness:
  "(\<exists>d. getVersion exampleHistory 1
          = Inr (Some d, exampleHistory\<lparr> versionToStructureDescriptionMap := [1 \<mapsto> d] \<rparr>)
        \<and> size_d d = 8 \<and> map name (fields_d d) = [''x'', ''y''])
   \<and> getVersion exampleHistory 2 = Inl (SizeMismatch ''VEC_'' 2 12 8)"
proof -
  have h: "versionToSizeMap exampleHistory 1 = Some 8"
    "versionToStructureDescriptionMap exampleHistory 1 = None"
    "versionToSizeMap exampleHistory 2 = Some 12"
    "versionToStructureDescriptionMap exampleHistory 2 = None"
    by (simp_all add: exampleHistory_simps)
  note v1 = getVersion_size_validation [OF h(1) h(2) refl]
  note v2 = getVersion_size_validation [OF h(3) h(4) refl]
  show ?thesis
    using v1 v2 by (auto simp add: exampleHistory_simps exampleFields_def)
qed

lemma getVersion_keeps:
  assumes "getVersion h v = Inr (d, h')"
  shows "versionToSizeMap h' = versionToSizeMap h \<and> (cache_ok h \<longrightarrow> cache_ok h')"
  using assms
  by (auto simp: getVersion_def cache_ok_def split: option.splits sum.splits)

lemma getVersions_keeps:
  "getVersions h vs = Inr h' \<Longrightarrow>
     versionToSizeMap h' = versionToSizeMap h \<and> (cache_ok h \<longrightarrow> cache_ok h')"
proof (induction vs arbitrary: h)
  case Nil
  then show ?case by simp
next
  case (Cons v vs)
  then show ?case
    by (auto split: sum.splits dest!: getVersion_keeps)
qed

text \<open>
  Claim C10. Take a history as its constructor builds it, after any sequence of
  \<open>getVersion\<close> calls that did not raise. For a version number that is not in the
  version-to-size map, \<open>getVersion\<close> returns \<open>None\<close> without raising, and the history,
  its cache included, is left as it was: no description is constructed or cached.
\<close>

theorem getVersion_undeclared_version:
  assumes "getVersions (M3StructureHistory_init n vmap fs) vs = Inr h"
    and "vmap v = None"
  shows "getVersion h v = Inr (None, h)"
proof -
  have "cache_ok (M3StructureHistory_init n vmap fs)"
    by (simp add: cache_ok_def M3StructureHistory_init_def)
  with getVersions_keeps [OF assms(1)] have "cache_ok h" "versionToSizeMap h = vmap"
    by (simp_all add: M3StructureHistory_init_def)
  with assms(2) show ?thesis
    by (simp add: getVersion_def cache_ok_def)
qed

theorem getVersion_undeclared_version_witness:
  "\<exists>h. getVersions exampleHistory [0, 1, 0] = Inr h
       \<and> versionToStructureDescriptionMap h 1 \<noteq> None
       \<and> getVersion h 7 = Inr (None, h)"
proof -
  have "\<exists>h. getVersions exampleHistory [0, 1, 0] = Inr h
             \<and> versionToStructureDescriptionMap h 1 \<noteq> None"
    by (simp add: getVersion_def exampleHistory_simps exampleFields_def usedFields_def
        includeField_def M3StructureDescription_init_def calculatedSize_def)
  then obtain h where h: "getVersions exampleHistory [0, 1, 0] = Inr h"
    and c: "versionToStructureDescriptionMap h 1 \<noteq> None" by blast
  have "getVersion h 7 = Inr (None, h)"
    using getVersion_undeclared_version [OF h [unfolded exampleHistory_def], of 7] by simp
  with h c show ?thesis by blast
qed

section \<open>Tags\<close>

lemma chr_of_char: "chr (of_char c) = c"
proof -
  have "unat (of_char c :: byte) = unat (of_nat (of_char c) :: byte)"
    by (simp only: of_nat_of_char)
  also have "\<dots> = of_char c"
    using nat_of_char_less_256 [of c] by (simp add: unat_of_nat)
  finally show ?thesis
    by (simp add: chr_def)
qed

lemma chr_0: "chr 0 = CHR 0x00"
  by (simp add: chr_def char_of_def)

lemma of_char_byte_eq_0: "(of_char c :: byte) = 0 \<longleftrightarrow> c = CHR 0x00"
proof
  assume "(of_char c :: byte) = 0"
  then have "chr (of_char c) = chr 0" by simp
  then show "c = CHR 0x00" by (simp add: chr_of_char chr_0)
next
  assume "c = CHR 0x00"
  then show "(of_char c :: byte) = 0" by simp
qed

lemma chr_examples:
  "chr 0x4D = CHR ''M''" "chr 0x44 = CHR ''D''" "chr 0x33 = CHR ''3''" "chr 0x34 = CHR ''4''"
  "chr 0x56 = CHR ''V''" "chr 0x49 = CHR ''I''" "chr 0x55 = CHR ''U''" "chr 0x38 = CHR ''8''"
  "chr 0x5F = CHR ''_''"
  unfolding chr_def by code_simp+

lemma TagField_write_then_read:
  fixes f :: field
  assumes "getattr owner (name f) = Inr (PyStr s)"
    and "length s = 3 \<or> length s = 4 \<and> s ! 0 \<noteq> CHR 0x00"
    and "\<forall>x \<in> set s. (of_char x :: nat) < 128"
    and "ofs + 4 \<le> length buffer"
  shows "\<exists>buffer'. TagField_writeToBuffer f owner buffer ofs = Inr buffer'
           \<and> TagField_readFromBuffer f owner buffer' ofs chk
               = Inr (setattr owner (name f) (PyStr s))"
proof -
  have four: "Suc (Suc (Suc (Suc ofs))) = ofs + 4" by simp
  from assms(2) consider (three) a b c where "s = [a, b, c]"
    | (four) a b c d where "s = [a, b, c, d]" "a \<noteq> CHR 0x00"
    by (cases s; cases "tl s"; cases "tl (tl s)"; cases "tl (tl (tl s))";
        cases "tl (tl (tl (tl s)))") auto
  then show ?thesis
  proof cases
    case three
    with assms show ?thesis
      by (simp add: TagField_writeToBuffer_def TagField_readFromBuffer_def encode_ascii_def
          pack_into_def unpack_from_def Let_def four chr_of_char nth_append)
  next
    case four
    with assms show ?thesis
      by (simp add: TagField_writeToBuffer_def TagField_readFromBuffer_def encode_ascii_def
          pack_into_def unpack_from_def Let_def chr_of_char nth_append of_char_byte_eq_0)
  qed
qed

text \<open>
  Claim C8. \<open>TagField.writeToBuffer\<close> stores a 4-character ASCII string in reversed byte
  order and a 3-character one reversed and followed by a NUL byte, in the four bytes at the
  field's offset: \<open>MD34\<close> gives 34 33 44 4D, \<open>U8__\<close> gives 5F 5F 38 55 and \<open>DIV\<close> gives
  56 49 44 00 (hexadecimal). \<open>TagField.readFromBuffer\<close> is symmetric: it produces the
  3-character string of bytes 2, 1, 0 when byte 3 is zero and the 4-character string of
  bytes 3, 2, 1, 0 otherwise; reading what was written gives the string back (for a
  4-character string, when its first character is not NUL).
\<close>

theorem TagField_reversed_byte_order:
  fixes f :: field
  shows "(getattr owner (name f) = Inr (PyStr [a, b, c, d]) \<and> ofs + 4 \<le> length buffer
          \<and> (\<forall>x \<in> set [a, b, c, d]. (of_char x :: nat) < 128) \<longrightarrow>
          TagField_writeToBuffer f owner buffer ofs
            = Inr (take ofs buffer @ [of_char d, of_char c, of_char b, of_char a]
                   @ drop (ofs + 4) buffer))
       \<and> (getattr owner (name f) = Inr (PyStr [a, b, c]) \<and> ofs + 4 \<le> length buffer
          \<and> (\<forall>x \<in> set [a, b, c]. (of_char x :: nat) < 128) \<longrightarrow>
          TagField_writeToBuffer f owner buffer ofs
            = Inr (take ofs buffer @ [of_char c, of_char b, of_char a, 0]
                   @ drop (ofs + 4) buffer))
       \<and> TagField_writeToBuffer f (M3Structure sn [(name f, PyStr ''MD34'')]) [w, x, y, z] 0
            = Inr [0x34, 0x33, 0x44, 0x4D]
       \<and> TagField_writeToBuffer f (M3Structure sn [(name f, PyStr ''U8__'')]) [w, x, y, z] 0
            = Inr [0x5F, 0x5F, 0x38, 0x55]
       \<and> TagField_writeToBuffer f (M3Structure sn [(name f, PyStr ''DIV'')]) [w, x, y, z] 0
            = Inr [0x56, 0x49, 0x44, 0x00]
       \<and> (ofs + 4 \<le> length buffer \<longrightarrow>
          TagField_readFromBuffer f owner buffer ofs chk
            = Inr (setattr owner (name f)
                 (PyStr (if buffer ! (ofs + 3) = 0
                         then [chr (buffer ! (ofs + 2)), chr (buffer ! (ofs + 1)),
                               chr (buffer ! ofs)]
                         else [chr (buffer ! (ofs + 3)), chr (buffer ! (ofs + 2)),
                               chr (buffer ! (ofs + 1)), chr (buffer ! ofs)]))))
       \<and> (getattr owner (name f) = Inr (PyStr s)
          \<and> (length s = 3 \<or> length s = 4 \<and> s ! 0 \<noteq> CHR 0x00)
          \<and> (\<forall>x \<in> set s. (of_char x :: nat) < 128) \<and> ofs + 4 \<le> length buffer \<longrightarrow>
          (\<exists>buffer'. TagField_writeToBuffer f owner buffer ofs = Inr buffer'
             \<and> TagField_readFromBuffer f owner buffer' ofs chk
                 = Inr (setattr owner (name f) (PyStr s))))"
proof -
  have four: "Suc (Suc (Suc (Suc ofs))) = ofs + 4" by simp
  show ?thesis
    using TagField_write_then_read [of owner f s ofs buffer chk]
    by (auto simp: TagField_writeToBuffer_def TagField_readFromBuffer_def encode_ascii_def
        pack_into_def unpack_from_def Let_def four)
qed

theorem TagField_reversed_byte_order_witness:
  "TagField_writeToBuffer exampleTagField (exampleTagOwner (PyStr ''MD34''))
       [1, 2, 3, 4, 5, 6, 7, 8] 2 = Inr [1, 2, 0x34, 0x33, 0x44, 0x4D, 7, 8]
   \<and> TagField_writeToBuffer exampleTagField (exampleTagOwner (PyStr ''DIV''))
       [1, 2, 3, 4, 5, 6, 7, 8] 2 = Inr [1, 2, 0x56, 0x49, 0x44, 0x00, 7, 8]
   \<and> TagField_readFromBuffer exampleTagField (exampleTagOwner PyNone)
       [1, 2, 0x34, 0x33, 0x44, 0x4D, 7, 8] 2 True = Inr (exampleTagOwner (PyStr ''MD34''))
   \<and> TagField_readFromBuffer exampleTagField (exampleTagOwner PyNone)
       [1, 2, 0x56, 0x49, 0x44, 0x00, 7, 8] 2 True = Inr (exampleTagOwner (PyStr ''DIV''))"
proof -
  have n: "name exampleTagField = ''tag''"
    by (simp add: exampleTagField_def)
  have g: "getattr (exampleTagOwner v) ''tag'' = Inr v" for v
    by (simp add: exampleTagOwner_def)
  have s: "setattr (exampleTagOwner v) ''tag'' v' = exampleTagOwner v'" for v v'
    by (simp add: exampleTagOwner_def)
  note w4 = TagField_reversed_byte_order [where f = exampleTagField
      and owner = "exampleTagOwner (PyStr ''MD34'')" and a = "CHR ''M''" and b = "CHR ''D''"
      and c = "CHR ''3''" and d = "CHR ''4''" and ofs = 2 and buffer = "[1, 2, 3, 4, 5, 6, 7, 8]",
      THEN conjunct1]
  note w3 = TagField_reversed_byte_order [where f = exampleTagField
      and owner = "exampleTagOwner (PyStr ''DIV'')" and a = "CHR ''D''" and b = "CHR ''I''"
      and c = "CHR ''V''" and ofs = 2 and buffer = "[1, 2, 3, 4, 5, 6, 7, 8]",
      THEN conjunct2, THEN conjunct1]
  note r4 = TagField_reversed_byte_order [where f = exampleTagField
      and owner = "exampleTagOwner PyNone" and ofs = 2 and chk = True
      and buffer = "[1, 2, 0x34, 0x33, 0x44, 0x4D, 7, 8]",
      THEN conjunct2, THEN conjunct2, THEN conjunct2, THEN conjunct2, THEN conjunct2,
      THEN conjunct1]
  note r3 = TagField_reversed_byte_order [where f = exampleTagField
      and owner = "exampleTagOwner PyNone" and ofs = 2 and chk = True
      and buffer = "[1, 2, 0x56, 0x49, 0x44, 0x00, 7, 8]",
      THEN conjunct2, THEN conjunct2, THEN conjunct2, THEN conjunct2, THEN conjunct2,
      THEN conjunct1]
  have "TagField_writeToBuffer exampleTagField (exampleTagOwner (PyStr ''MD34''))
       [1, 2, 3, 4, 5, 6, 7, 8] 2 = Inr [1, 2, 0x34, 0x33, 0x44, 0x4D, 7, 8]"
    using w4 by (simp add: n g)
  moreover have "TagField_writeToBuffer exampleTagField (exampleTagOwner (PyStr ''DIV''))
       [1, 2, 3, 4, 5, 6, 7, 8] 2 = Inr [1, 2, 0x56, 0x49, 0x44, 0x00, 7, 8]"
    using w3 by (simp add: n g)
  moreover have "TagField_readFromBuffer exampleTagField (exampleTagOwner PyNone)
       [1, 2, 0x34, 0x33, 0x44, 0x4D, 7, 8] 2 True = Inr (exampleTagOwner (PyStr ''MD34''))"
    using r4 by (simp add: n s chr_examples)
  moreover have "TagField_readFromBuffer exampleTagField (exampleTagOwner PyNone)
       [1, 2, 0x56, 0x49, 0x44, 0x00, 7, 8] 2 True = Inr (exampleTagOwner (PyStr ''DIV''))"
    using r3 by (simp add: n s chr_examples)
  ultimately show ?thesis by simp
qed

section \<open>Named bits of integer fields\<close>

lemma getattr_setattr_same: "getattr (setattr ow n v) n = Inr v"
  by (cases ow) (simp add: update_conv')

lemma getattr_setattr_other: "k \<noteq> n \<Longrightarrow> getattr (setattr ow n v) k = getattr ow k"
  by (cases ow) (simp add: update_conv')

lemma setattr_setattr: "setattr (setattr ow n v) n w = setattr ow n w"
  by (cases ow) simp

lemma structureName_of_setattr: "structureName_of (setattr ow n v) = structureName_of ow"
  by (cases ow) simp

lemma or_and_same: "((x::int) OR m) AND m = m"
  by (rule bit_eqI) (auto simp: bit_and_iff bit_or_iff)

lemma xor_and_full: "(x::int) AND m = m \<Longrightarrow> (x XOR m) AND m = 0"
  by (rule bit_eqI) (auto simp: bit_and_iff bit_xor_iff bit_eq_iff)

lemma and_pow2: "(x::int) AND 2 ^ k = 0 \<or> x AND 2 ^ k = 2 ^ k"
proof (cases "bit x k")
  case True
  then have "x AND 2 ^ k = 2 ^ k" by (auto intro!: bit_eqI simp: bit_and_iff bit_exp_iff)
  then show ?thesis ..
next
  case False
  then have "x AND 2 ^ k = 0" by (auto intro!: bit_eqI simp: bit_and_iff bit_exp_iff)
  then show ?thesis ..
qed

text \<open>
  Claim C6, as the code has it. Let the integer field have a named bit \<open>b\<close> with mask \<open>m\<close>
  and hold the integer \<open>x\<close>. Reading \<open>b\<close> after setting it to true returns true exactly
  when \<open>m\<close> is not zero. Applying \<open>setNamedBit\<close> with the same value twice gives the same
  owner as applying it once when the value is true, or when the bits of \<open>x\<close> under \<open>m\<close>
  are all clear or all set. Both laws hold for every mask that is a single bit.
\<close>

theorem IntField_named_bit_laws:
  assumes m: "bitMaskMap f b = Some m" and x: "getattr owner (name f) = Inr (PyInt x)"
  shows "(\<exists>o1. IntField_setNamedBit f owner b True = Inr o1
              \<and> IntField_getNamedBit f o1 b = Inr (m \<noteq> 0))
       \<and> (v \<or> x AND m = 0 \<or> x AND m = m \<longrightarrow>
            (\<exists>o1. IntField_setNamedBit f owner b v = Inr o1
                 \<and> IntField_setNamedBit f o1 b v = Inr o1))
       \<and> ((\<exists>k. m = 2 ^ k) \<longrightarrow>
            (\<exists>o1. IntField_setNamedBit f owner b True = Inr o1
                 \<and> IntField_getNamedBit f o1 b = Inr True)
            \<and> (\<exists>o1. IntField_setNamedBit f owner b v = Inr o1
                 \<and> IntField_setNamedBit f o1 b v = Inr o1))"
proof -
  have get_set: "\<exists>o1. IntField_setNamedBit f owner b True = Inr o1
              \<and> IntField_getNamedBit f o1 b = Inr (m \<noteq> 0)"
    by (simp add: IntField_setNamedBit_def IntField_getNamedBit_def m x
        getattr_setattr_same or_and_same)
  have idem: "\<exists>o1. IntField_setNamedBit f owner b v = Inr o1
                 \<and> IntField_setNamedBit f o1 b v = Inr o1"
    if "v \<or> x AND m = 0 \<or> x AND m = m"
  proof (cases v)
    case True
    then show ?thesis
      by (simp add: IntField_setNamedBit_def m x getattr_setattr_same setattr_setattr)
  next
    case False
    with that consider "x AND m = 0" | "x AND m \<noteq> 0" "x AND m = m" by blast
    then show ?thesis
    proof cases
      case 1
      with False show ?thesis
        by (simp add: IntField_setNamedBit_def m x)
    next
      case 2
      with False show ?thesis
        by (simp add: IntField_setNamedBit_def m x getattr_setattr_same xor_and_full)
    qed
  qed
  have single: "(\<exists>o1. IntField_setNamedBit f owner b True = Inr o1
                 \<and> IntField_getNamedBit f o1 b = Inr True)
            \<and> (\<exists>o1. IntField_setNamedBit f owner b v = Inr o1
                 \<and> IntField_setNamedBit f o1 b v = Inr o1)" if "\<exists>k. m = 2 ^ k"
  proof -
    from that obtain k where k: "m = 2 ^ k" ..
    then have "m \<noteq> 0" by simp
    moreover have "x AND m = 0 \<or> x AND m = m" unfolding k by (rule and_pow2)
    ultimately show ?thesis using get_set idem by auto
  qed
  from get_set idem single show ?thesis by blast
qed

theorem IntField_named_bit_laws_witness:
  "IntField_setNamedBit exampleIntField (exampleIntOwner 1) ''third'' True = Inr (exampleIntOwner 5)
   \<and> IntField_getNamedBit exampleIntField (exampleIntOwner 5) ''third'' = Inr True
   \<and> IntField_setNamedBit exampleIntField (exampleIntOwner 5) ''third'' True = Inr (exampleIntOwner 5)
   \<and> IntField_setNamedBit exampleIntField (exampleIntOwner 5) ''third'' False = Inr (exampleIntOwner 1)
   \<and> IntField_setNamedBit exampleIntField (exampleIntOwner 1) ''third'' False = Inr (exampleIntOwner 1)"
proof -
  have m: "bitMaskMap exampleIntField ''third'' = Some 4"
    by (simp add: exampleIntField_def)
  have g: "getattr (exampleIntOwner x) (name exampleIntField) = Inr (PyInt x)" for x
    by (simp add: exampleIntField_def exampleIntOwner_def)
  have p: "\<exists>k. (4::int) = 2 ^ k" by (rule exI [of _ 2]) simp
  have s1: "IntField_setNamedBit exampleIntField (exampleIntOwner 1) ''third'' True = Inr (exampleIntOwner 5)"
    and s2: "IntField_setNamedBit exampleIntField (exampleIntOwner 5) ''third'' False = Inr (exampleIntOwner 1)"
    by (simp_all add: IntField_setNamedBit_def exampleIntField_def exampleIntOwner_def)
  from IntField_named_bit_laws [OF m g [of 1], of True]
    IntField_named_bit_laws [OF m g [of 5], of False] p s1 s2
  show ?thesis by simp
qed

text \<open>
  Claim C6 as stated, for every mask value, fails for masks that are not a single bit. With the two-bit mask 3
  on the value 1, clearing the named bit gives 2 and clearing it again gives 1. With the
  mask 0, the named bit reads false right after it was set to true.
\<close>

theorem IntField_named_bit_laws_counterexample:
  "IntField_setNamedBit exampleIntField (exampleIntOwner 1) ''pair'' False = Inr (exampleIntOwner 2)
   \<and> IntField_setNamedBit exampleIntField (exampleIntOwner 2) ''pair'' False = Inr (exampleIntOwner 1)
   \<and> getattr (exampleIntOwner 2) ''flags'' \<noteq> getattr (exampleIntOwner 1) ''flags''
   \<and> IntField_setNamedBit exampleIntField (exampleIntOwner 5) ''none'' True = Inr (exampleIntOwner 5)
   \<and> IntField_getNamedBit exampleIntField (exampleIntOwner 5) ''none'' = Inr False"
  by (simp add: IntField_setNamedBit_def IntField_getNamedBit_def exampleIntField_def exampleIntOwner_def)

text \<open>
  Claim C9. Let the integer field have a named bit \<open>b\<close> with mask \<open>m\<close> and hold an
  integer. Then \<open>setNamedBit\<close> succeeds for either boolean, the field holds an integer
  afterwards, every bit of it outside \<open>m\<close> has kept its value, and every other attribute
  of the owner is unchanged.
\<close>

theorem IntField_setNamedBit_frame:
  assumes m: "bitMaskMap f b = Some m" and x: "getattr owner (name f) = Inr (PyInt x)"
  shows "\<exists>owner' x'. IntField_setNamedBit f owner b v = Inr owner'
           \<and> getattr owner' (name f) = Inr (PyInt x')
           \<and> (\<forall>n. \<not> bit m n \<longrightarrow> bit x' n = bit x n)
           \<and> x' AND NOT m = x AND NOT m
           \<and> (\<forall>k. k \<noteq> name f \<longrightarrow> getattr owner' k = getattr owner k)
           \<and> structureName_of owner' = structureName_of owner"
proof -
  have a: "(x OR m) AND NOT m = x AND NOT m"
    by (rule bit_eqI) (auto simp: bit_and_iff bit_or_iff bit_not_iff)
  have b: "(x XOR m) AND NOT m = x AND NOT m"
    by (rule bit_eqI) (auto simp: bit_and_iff bit_xor_iff bit_not_iff)
  show ?thesis
    by (simp add: IntField_setNamedBit_def m x getattr_setattr_same getattr_setattr_other
        structureName_of_setattr a b bit_or_iff bit_xor_iff)
qed

theorem IntField_setNamedBit_frame_witness:
  "IntField_setNamedBit exampleIntField (exampleIntOwner 9) ''pair'' True
     = Inr (exampleIntOwner 11)
   \<and> (11 :: int) AND NOT 3 = 9 AND NOT 3
   \<and> getattr (exampleIntOwner 11) ''nameLength'' = getattr (exampleIntOwner 9) ''nameLength''"
proof -
  have m: "bitMaskMap exampleIntField ''pair'' = Some 3"
    by (simp add: exampleIntField_def)
  have g: "getattr (exampleIntOwner x) (name exampleIntField) = Inr (PyInt x)" for x
    by (simp add: exampleIntField_def exampleIntOwner_def)
  have n: "name exampleIntField = ''flags''"
    by (simp add: exampleIntField_def)
  have s: "IntField_setNamedBit exampleIntField (exampleIntOwner 9) ''pair'' True
     = Inr (exampleIntOwner 11)"
    by (simp add: IntField_setNamedBit_def exampleIntField_def exampleIntOwner_def)
  from IntField_setNamedBit_frame [OF m g [of 9], of True]
  obtain owner' x' where "IntField_setNamedBit exampleIntField (exampleIntOwner 9) ''pair'' True
        = Inr owner'"
    and "getattr owner' (name exampleIntField) = Inr (PyInt x')"
    and "x' AND NOT 3 = 9 AND NOT 3"
    and "\<forall>k. k \<noteq> name exampleIntField \<longrightarrow> getattr owner' k = getattr (exampleIntOwner 9) k"
    by blast
  with s g [of 11] show ?thesis
    by (simp add: n)
qed

section \<open>Resolving references\<close>

lemma exampleReferenceField_simps:
  "name (exampleReferenceField n r) = n"
  "historyOfReferencedStructures (exampleReferenceField n r)
     = Some (M3StructureHistory_init r [0 \<mapsto> 4] [])"
  "name_h (M3StructureHistory_init r m fs) = r"
  by (simp_all add: exampleReferenceField_def M3StructureHistory_init_def)

lemma exampleOwner_simps:
  "getattr (exampleOwner n v) n = Inr v"
  "setattr (exampleOwner n v) n v' = exampleOwner n v'"
  by (simp_all add: exampleOwner_def)

text \<open>
  Claim C1. Take a reference field with a \<open>refTo\<close> structure history, whose attribute of
  the owner is a Reference record with \<open>entries > 0\<close> and an index that is a valid section
  index. \<open>resolveIndexReferences\<close> raises when the referenced section has fewer repetitions
  than the record has entries, and when the section's tag differs from the name of the
  history. Otherwise it succeeds: the owner's attribute becomes the content of the
  referenced section, and the section list is the old one with \<open>timesReferenced\<close> of that
  one section incremented by one.
\<close>

theorem ReferenceField_resolveIndexReferences_checks:
  assumes h: "historyOfReferencedStructures f = Some h"
    and r: "getattr owner (name f) = Inr (PyReference ref)"
    and e: "0 < entries ref"
    and i: "0 \<le> index ref" "index ref < int (length sections)"
    and sec: "sec = sections ! nat (index ref)"
  shows "(repetitions (indexEntry sec) < entries ref \<longrightarrow>
            ReferenceField_resolveIndexReferences f owner sections = Inl ReferencesMoreElements)
       \<and> (\<not> repetitions (indexEntry sec) < entries ref \<and> tag (indexEntry sec) \<noteq> name_h h \<longrightarrow>
            ReferenceField_resolveIndexReferences f owner sections
              = Inl (WrongReferentTag (name_h h) (tag (indexEntry sec))))
       \<and> (\<not> repetitions (indexEntry sec) < entries ref \<and> tag (indexEntry sec) = name_h h \<longrightarrow>
            ReferenceField_resolveIndexReferences f owner sections
              = Inr (setattr owner (name f) (content sec),
                     sections[nat (index ref) :=
                                sec\<lparr> timesReferenced := timesReferenced sec + 1 \<rparr>]))"
  using e i
  by (simp add: ReferenceField_resolveIndexReferences_def h r sec list_index_def Let_def)

theorem ReferenceField_resolveIndexReferences_checks_witness:
  "ReferenceField_resolveIndexReferences (exampleReferenceField ''bones'' ''BONE'')
       (exampleOwner ''bones'' (PyReference \<lparr> entries = 3, index = 1, flags = 0 \<rparr>))
       exampleSections
     = Inr (exampleOwner ''bones'' exampleBones,
            [exampleSections ! 0, (exampleSections ! 1)\<lparr> timesReferenced := 1 \<rparr>])
   \<and> ReferenceField_resolveIndexReferences (exampleReferenceField ''bones'' ''BONE'')
       (exampleOwner ''bones'' (PyReference \<lparr> entries = 4, index = 1, flags = 0 \<rparr>))
       exampleSections
     = Inl ReferencesMoreElements
   \<and> ReferenceField_resolveIndexReferences (exampleReferenceField ''bones'' ''REGN'')
       (exampleOwner ''bones'' (PyReference \<lparr> entries = 3, index = 1, flags = 0 \<rparr>))
       exampleSections
     = Inl (WrongReferentTag ''REGN'' ''BONE'')"
proof -
  have s: "length exampleSections = 2"
    "indexEntry (exampleSections ! Suc 0)
       = \<lparr> tag = ''BONE'', offset = 32, repetitions = 3, version = 0 \<rparr>"
    "content (exampleSections ! Suc 0) = exampleBones"
    "timesReferenced (exampleSections ! Suc 0) = 0"
    "exampleSections[Suc 0 := x] = [exampleSections ! 0, x]" for x
    by (simp_all add: exampleSections_def)
  note ok = ReferenceField_resolveIndexReferences_checks
    [where f = "exampleReferenceField ''bones'' ''BONE''" and sections = exampleSections
      and ref = "\<lparr> entries = 3, index = 1, flags = 0 \<rparr>"
      and owner = "exampleOwner ''bones'' (PyReference \<lparr> entries = 3, index = 1, flags = 0 \<rparr>)",
      OF exampleReferenceField_simps(2) _ _ _ _ refl]
  note more = ReferenceField_resolveIndexReferences_checks
    [where f = "exampleReferenceField ''bones'' ''BONE''" and sections = exampleSections
      and ref = "\<lparr> entries = 4, index = 1, flags = 0 \<rparr>"
      and owner = "exampleOwner ''bones'' (PyReference \<lparr> entries = 4, index = 1, flags = 0 \<rparr>)",
      OF exampleReferenceField_simps(2) _ _ _ _ refl]
  note wrong = ReferenceField_resolveIndexReferences_checks
    [where f = "exampleReferenceField ''bones'' ''REGN''" and sections = exampleSections
      and ref = "\<lparr> entries = 3, index = 1, flags = 0 \<rparr>"
      and owner = "exampleOwner ''bones'' (PyReference \<lparr> entries = 3, index = 1, flags = 0 \<rparr>)",
      OF exampleReferenceField_simps(2) _ _ _ _ refl]
  show ?thesis
    using ok more wrong by (simp add: exampleReferenceField_simps exampleOwner_simps s)
qed

text \<open>
  Claim C7, as the code has it. For a reference field whose referent kind is \<open>CHAR\<close>,
  \<open>setToDefault\<close> sets the owner's attribute to \<open>None\<close>, and resolving a Reference record
  with \<open>entries == 0\<close> replaces the owner's attribute by \<open>None\<close>; the result does not
  depend on the section list, which is returned as it was.
\<close>

theorem CharReferenceField_empty_is_None:
  assumes h: "historyOfReferencedStructures f = Some h" and c: "name_h h = ''CHAR''"
  shows "ReferenceField_setToDefault f owner = setattr owner (name f) PyNone
       \<and> (getattr owner (name f) = Inr (PyReference ref) \<and> entries ref = 0 \<longrightarrow>
            ReferenceField_resolveIndexReferences f owner sections
              = Inr (setattr owner (name f) PyNone, sections))"
  by (simp add: ReferenceField_setToDefault_def ReferenceField_resolveIndexReferences_def
      h c createEmptyArray_def)

theorem CharReferenceField_empty_is_None_witness:
  "ReferenceField_setToDefault (exampleReferenceField ''name'' ''CHAR'')
       (exampleOwner ''name'' (PyStr ''Marine''))
     = exampleOwner ''name'' PyNone
   \<and> ReferenceField_resolveIndexReferences (exampleReferenceField ''name'' ''CHAR'')
       (exampleOwner ''name'' (PyReference \<lparr> entries = 0, index = 1, flags = 0 \<rparr>))
       exampleSections
     = Inr (exampleOwner ''name'' PyNone, exampleSections)"
  using CharReferenceField_empty_is_None
    [where f = "exampleReferenceField ''name'' ''CHAR''" and sections = exampleSections
      and ref = "\<lparr> entries = 0, index = 1, flags = 0 \<rparr>",
      OF exampleReferenceField_simps(2) exampleReferenceField_simps(3)]
  by (simp add: exampleReferenceField_simps exampleOwner_simps)

text \<open>
  Claim C7 as stated fails: the empty collection of a \<open>CHAR\<close> reference is \<open>None\<close>, not
  the empty string. Neither \<open>setToDefault\<close> nor resolving a record with \<open>entries == 0\<close>
  stores a string.
\<close>

theorem CharReferenceField_empty_is_None_counterexample:
  "getattr (ReferenceField_setToDefault (exampleReferenceField ''name'' ''CHAR'')
              (exampleOwner ''name'' (PyStr ''Marine''))) ''name''
     \<noteq> Inr (PyStr '''')
   \<and> ReferenceField_resolveIndexReferences (exampleReferenceField ''name'' ''CHAR'')
       (exampleOwner ''name'' (PyReference \<lparr> entries = 0, index = 1, flags = 0 \<rparr>))
       exampleSections
     \<noteq> Inr (exampleOwner ''name'' (PyStr ''''), exampleSections)"
  by (simp add: ReferenceField_setToDefault_def ReferenceField_resolveIndexReferences_def
      exampleReferenceField_simps exampleOwner_simps createEmptyArray_def exampleOwner_def)

section \<open>Fixed-point bytes\<close>





section \<open>Section padding\<close>

lemma increaseToValidSectionSize_least:
  "16 dvd increaseToValidSectionSize n" "n \<le> increaseToValidSectionSize n"
  "increaseToValidSectionSize n < n + 16"
  "increaseToValidSectionSize n = n \<longleftrightarrow> 16 dvd n"
  unfolding increaseToValidSectionSize_def Let_def by presburger+

lemma length_fold_update: "length (fold (\<lambda>i b. b[i := a]) is xs) = length xs"
  by (induction "is" arbitrary: xs) auto

lemma nth_fold_update:
  "i < length xs \<Longrightarrow>
     fold (\<lambda>i b. b[i := a]) is xs ! i = (if i \<in> set is then a else xs ! i)"
  by (induction "is" arbitrary: xs) (auto simp: length_fold_update nth_list_update)

lemma take_fold_update:
  "\<forall>i \<in> set is. n \<le> i \<Longrightarrow> take n (fold (\<lambda>i b. b[i := a]) is xs) = take n xs"
  by (induction "is" arbitrary: xs) auto

text \<open>
  Claim C3. Let \<open>determineRawBytesWithData\<close> give the bytes \<open>minRawBytes\<close> for a section
  and \<open>bytesRequiredForContent\<close> give \<open>required\<close>. If the two lengths differ,
  \<open>determineFieldRawBytes\<close> raises. Otherwise it succeeds and sets \<open>rawBytes\<close>, and nothing
  else, to a byte list whose length is the smallest multiple of 16 that is at least the
  required byte count, which starts with the content bytes and has \<open>0xAA\<close> at every later
  position. In particular, content that requires 37 bytes gives 48 bytes, of which bytes
  37 to 47 are \<open>0xAA\<close>.
\<close>

theorem determineFieldRawBytes_padding:
  assumes raw: "determineRawBytesWithData pack s = Inr minRawBytes"
    and req: "bytesRequiredForContent s = Inr required"
  shows "(int (length minRawBytes) \<noteq> required \<longrightarrow>
            determineFieldRawBytes pack s
              = Inl (SectionSizeCalculationFailed required (length minRawBytes)))
       \<and> (int (length minRawBytes) = required \<longrightarrow>
            (\<exists>rb. determineFieldRawBytes pack s = Inr (s\<lparr> rawBytes := Some rb \<rparr>)
               \<and> 16 dvd length rb \<and> length minRawBytes \<le> length rb
               \<and> (\<forall>n. 16 dvd n \<and> length minRawBytes \<le> n \<longrightarrow> length rb \<le> n)
               \<and> take (length minRawBytes) rb = minRawBytes
               \<and> (\<forall>i. length minRawBytes \<le> i \<and> i < length rb \<longrightarrow> rb ! i = 0xAA)
               \<and> (required = 37 \<longrightarrow> length rb = 48 \<and> (\<forall>i \<in> {37..47}. rb ! i = 0xAA))))"
proof -
  define n where "n = length minRawBytes"
  define sz where "sz = nat (increaseToValidSectionSize (int n))"
  define rb where "rb = (if int n = increaseToValidSectionSize (int n) then minRawBytes
      else fold (\<lambda>i b. b[i := 0xAA]) [n ..< sz] (minRawBytes @ drop n (replicate sz 0)))"
  have szn: "int sz = increaseToValidSectionSize (int n)"
    using increaseToValidSectionSize_least(2) [of "int n"] by (simp add: sz_def)
  have dvd: "16 dvd sz" "n \<le> sz" "sz < n + 16"
    using increaseToValidSectionSize_least(1,2,3) [of "int n"] szn by presburger+
  have len: "length rb = sz"
    using dvd(2) szn by (auto simp: rb_def length_fold_update n_def)
  have pre: "take n rb = minRawBytes"
    by (simp add: rb_def take_fold_update n_def)
  have pad: "rb ! i = 0xAA" if "n \<le> i" "i < length rb" for i
  proof (cases "int n = increaseToValidSectionSize (int n)")
    case True
    with that len szn show ?thesis by simp
  next
    case False
    with that len dvd show ?thesis
      by (simp add: rb_def nth_fold_update n_def)
  qed
  have least: "length rb \<le> m" if "16 dvd m" "n \<le> m" for m
    using that dvd len by presburger
  have res: "determineFieldRawBytes pack s = Inr (s\<lparr> rawBytes := Some rb \<rparr>)"
    if "int n = required"
    using that
    by (simp add: determineFieldRawBytes_def raw req Let_def rb_def sz_def n_def)
  have l37: "length rb = 48" if "n = 37"
    using that dvd len by presburger
  have "int n \<noteq> required \<Longrightarrow> determineFieldRawBytes pack s
              = Inl (SectionSizeCalculationFailed required n)"
    by (simp add: determineFieldRawBytes_def raw req n_def)
  moreover have "\<exists>rb. determineFieldRawBytes pack s = Inr (s\<lparr> rawBytes := Some rb \<rparr>)
               \<and> 16 dvd length rb \<and> n \<le> length rb
               \<and> (\<forall>m. 16 dvd m \<and> n \<le> m \<longrightarrow> length rb \<le> m)
               \<and> take n rb = minRawBytes
               \<and> (\<forall>i. n \<le> i \<and> i < length rb \<longrightarrow> rb ! i = 0xAA)
               \<and> (required = 37 \<longrightarrow> length rb = 48 \<and> (\<forall>i \<in> {37..47}. rb ! i = 0xAA))"
    if "int n = required"
  proof (intro exI [of _ rb] conjI)
    show "required = 37 \<longrightarrow> length rb = 48 \<and> (\<forall>i \<in> {37..47}. rb ! i = 0xAA)"
      using that l37 pad by auto
  qed (use that res len dvd pre pad least in auto)
  ultimately show ?thesis unfolding n_def by blast
qed

theorem determineFieldRawBytes_padding_witness:
  "determineFieldRawBytes (\<lambda>v. Inl TypeError) exampleCharSection
     = Inr (exampleCharSection
             \<lparr> rawBytes := Some (map of_char ''Assets/Units/Terran/Marine/Marine.m3''
                                 @ [0] @ replicate 11 0xAA) \<rparr>)"
proof -
  define minRawBytes :: "byte list"
    where "minRawBytes = map of_char ''Assets/Units/Terran/Marine/Marine.m3'' @ [0]"
  have l: "length minRawBytes = 37"
    by (simp add: minRawBytes_def)
  have raw: "determineRawBytesWithData (\<lambda>v. Inl TypeError) exampleCharSection = Inr minRawBytes"
    by (simp add: determineRawBytesWithData_def instancesToBytes_def exampleCharSection_def
        exampleDescription_def encode_ascii_def minRawBytes_def)
  have req: "bytesRequiredForContent exampleCharSection = Inr 37"
    by (simp add: bytesRequiredForContent_def countBytesRequiredForInstances_def
        exampleCharSection_def exampleDescription_def)
  from determineFieldRawBytes_padding [OF raw req] l
  obtain rb where res: "determineFieldRawBytes (\<lambda>v. Inl TypeError) exampleCharSection
        = Inr (exampleCharSection\<lparr> rawBytes := Some rb \<rparr>)"
    and len: "length rb = 48"
    and pre: "take 37 rb = minRawBytes"
    and pad: "\<forall>i \<in> {37..47}. rb ! i = 0xAA"
    by auto
  have "drop 37 rb = replicate 11 0xAA"
  proof (rule nth_equalityI)
    show "length (drop 37 rb) = length (replicate 11 (0xAA :: byte))"
      by (simp add: len)
  next
    fix i assume "i < length (drop 37 rb)"
    then have i: "i < 11" by (simp add: len)
    then have "37 + i \<in> {37..47}" by simp
    with pad have "rb ! (37 + i) = 0xAA" by blast
    with i show "drop 37 rb ! i = replicate 11 (0xAA :: byte) ! i"
      by (simp add: len)
  qed
  with pre have "rb = minRawBytes @ replicate 11 0xAA"
    by (metis append_take_drop_id)
  with res show ?thesis
    by (simp add: minRawBytes_def)
qed

section \<open>Sharing of sections by object identity\<close>

lemma maker_ok_init: "maker_ok IndexMaker_init"
  by (simp add: maker_ok_def IndexMaker_init_def)

lemma getIndexReferenceTo_hit:
  "objectsIdToIndexReferenceMap m (fst obj) = Some r \<Longrightarrow>
     getIndexReferenceTo m obj rd sd = Inr (r, m)"
  by (simp add: getIndexReferenceTo_def)

lemma getIndexReferenceTo_miss:
  assumes "objectsIdToIndexReferenceMap m (fst obj) = None"
    and "getIndexReferenceTo m obj rd sd = Inr (r, m')"
  shows "r = rd\<lparr> entries := entries r, index := nextFreeIndexPosition m \<rparr>
       \<and> (if 0 < entries r
          then (\<exists>sec. objectsIdToIndexReferenceMap m' = (objectsIdToIndexReferenceMap m)(fst obj \<mapsto> r)
                  \<and> nextFreeIndexPosition m' = nextFreeIndexPosition m + 1
                  \<and> sections_m m' = sections_m m @ [sec]
                  \<and> repetitions (indexEntry sec) = entries r
                  \<and> content sec = snd obj)
          else m' = m)"
  using assms
  by (auto simp: getIndexReferenceTo_def Let_def split: sum.splits option.splits if_splits)

lemma getIndexReferenceTo_step:
  assumes ok: "maker_ok m" and call: "getIndexReferenceTo m obj rd sd = Inr (r, m')"
  shows "maker_ok m'
       \<and> objectsIdToIndexReferenceMap m \<subseteq>\<^sub>m objectsIdToIndexReferenceMap m'
       \<and> (0 < entries r \<longrightarrow> objectsIdToIndexReferenceMap m' (fst obj) = Some r)
       \<and> dom (objectsIdToIndexReferenceMap m')
           = dom (objectsIdToIndexReferenceMap m) \<union> (if 0 < entries r then {fst obj} else {})"
proof -
  let ?memo = "objectsIdToIndexReferenceMap"
  show ?thesis
  proof (cases "?memo m (fst obj)")
    case (Some r0)
    with call have "r = r0" "m' = m" by (simp_all add: getIndexReferenceTo_def)
    with Some ok show "maker_ok m' \<and> ?memo m \<subseteq>\<^sub>m ?memo m' \<and> (0 < entries r \<longrightarrow> ?memo m' (fst obj) = Some r)
      \<and> dom (?memo m') = dom (?memo m) \<union> (if 0 < entries r then {fst obj} else {})"
      by (auto simp: maker_ok_def)
  next
    case None
    note miss = getIndexReferenceTo_miss [OF None call]
    show "maker_ok m' \<and> ?memo m \<subseteq>\<^sub>m ?memo m' \<and> (0 < entries r \<longrightarrow> ?memo m' (fst obj) = Some r)
      \<and> dom (?memo m') = dom (?memo m) \<union> (if 0 < entries r then {fst obj} else {})"
    proof (cases "0 < entries r")
      case False
      with miss ok None show ?thesis by (auto simp: map_le_def)
    next
      case True
      with miss obtain sec where memo': "?memo m' = (?memo m)(fst obj \<mapsto> r)"
        and nxt: "nextFreeIndexPosition m' = nextFreeIndexPosition m + 1"
        and secs: "sections_m m' = sections_m m @ [sec]"
        and reps: "repetitions (indexEntry sec) = entries r" by auto
      from miss have idx: "index r = nextFreeIndexPosition m"
        by (metis reference.select_convs(2) reference.surjective reference.update_convs(1,2))
      from ok have n: "nextFreeIndexPosition m = int (length (sections_m m))"
        and old: "\<And>i r. ?memo m i = Some r \<Longrightarrow>
          0 < entries r \<and> 0 \<le> index r \<and> index r < nextFreeIndexPosition m
          \<and> repetitions (indexEntry (sections_m m ! nat (index r))) = entries r"
        and inj: "\<And>i j r r'. ?memo m i = Some r \<Longrightarrow> ?memo m j = Some r' \<Longrightarrow> index r = index r' \<Longrightarrow> i = j"
        and fin: "finite (dom (?memo m))" and crd: "card (dom (?memo m)) = length (sections_m m)"
        unfolding maker_ok_def by blast+
      have notin: "fst obj \<notin> dom (?memo m)" using None by auto
      have 1: "nextFreeIndexPosition m' = int (length (sections_m m'))"
        using nxt secs n by simp
      have 2: "0 < entries r' \<and> 0 \<le> index r' \<and> index r' < nextFreeIndexPosition m'
          \<and> repetitions (indexEntry (sections_m m' ! nat (index r'))) = entries r'"
        if "?memo m' i = Some r'" for i r'
      proof (cases "i = fst obj")
        case True
        with that memo' have "r' = r" by simp
        with \<open>0 < entries r\<close> idx nxt n secs reps show ?thesis by (simp add: nth_append)
      next
        case False
        with that memo' have "?memo m i = Some r'" by simp
        from old [OF this] nxt secs n show ?thesis by (auto simp add: nth_append)
      qed
      have 3: "i = j" if "?memo m' i = Some r1" "?memo m' j = Some r2" "index r1 = index r2" for i j r1 r2
      proof -
        consider "i = fst obj" "j = fst obj" | "i = fst obj" "j \<noteq> fst obj" | "i \<noteq> fst obj" "j = fst obj"
          | "i \<noteq> fst obj" "j \<noteq> fst obj" by blast
        then show ?thesis
        proof cases
          case 1 then show ?thesis by simp
        next
          case 2
          with that memo' have "r1 = r" "?memo m j = Some r2" by simp_all
          with old [of j r2] idx that(3) show ?thesis by simp
        next
          case 3
          with that memo' have "r2 = r" "?memo m i = Some r1" by simp_all
          with old [of i r1] idx that(3) show ?thesis by simp
        next
          case 4
          with that memo' have "?memo m i = Some r1" "?memo m j = Some r2" by simp_all
          with inj that(3) show ?thesis by blast
        qed
      qed
      have 4: "finite (dom (?memo m'))" using fin memo' by simp
      have 5: "card (dom (?memo m')) = length (sections_m m')"
        using fin crd notin memo' secs by simp
      have "maker_ok m'" unfolding maker_ok_def using 1 2 3 4 5 by blast
      moreover have "?memo m \<subseteq>\<^sub>m ?memo m'" using memo' None by (auto simp: map_le_def)
      ultimately show ?thesis using memo' True by auto
    qed
  qed
qed

lemma getIndexReferences_Cons:
  "getIndexReferences m (c # cs) = Inr (rs, m') \<longleftrightarrow>
     (\<exists>r m1 rs'. getIndexReferenceTo m (fst c) (fst (snd c)) (snd (snd c)) = Inr (r, m1)
        \<and> getIndexReferences m1 cs = Inr (rs', m') \<and> rs = r # rs')"
  by (cases c) (auto split: sum.splits)

lemma getIndexReferences_run:
  assumes "maker_ok m" and "getIndexReferences m cs = Inr (rs, m')"
  shows "maker_ok m'
       \<and> objectsIdToIndexReferenceMap m \<subseteq>\<^sub>m objectsIdToIndexReferenceMap m'
       \<and> length rs = length cs
       \<and> (\<forall>k < length cs. 0 < entries (rs ! k) \<longrightarrow>
             objectsIdToIndexReferenceMap m' (fst (fst (cs ! k))) = Some (rs ! k))
       \<and> (\<forall>k < length cs. \<forall>r. objectsIdToIndexReferenceMap m (fst (fst (cs ! k))) = Some r \<longrightarrow>
             rs ! k = r)
       \<and> (\<forall>a b. a \<le> b \<and> b < length cs \<and> fst (fst (cs ! a)) = fst (fst (cs ! b))
             \<and> 0 < entries (rs ! a) \<longrightarrow> rs ! b = rs ! a)
       \<and> dom (objectsIdToIndexReferenceMap m')
           = dom (objectsIdToIndexReferenceMap m)
             \<union> {fst (fst (cs ! k)) | k. k < length cs \<and> 0 < entries (rs ! k)}"
  using assms
proof (induction cs arbitrary: m rs)
  case Nil
  then show ?case by simp
next
  case (Cons c cs)
  let ?memo = "objectsIdToIndexReferenceMap"
  from Cons.prems(2) obtain r m1 rs'
    where call: "getIndexReferenceTo m (fst c) (fst (snd c)) (snd (snd c)) = Inr (r, m1)"
      and rest: "getIndexReferences m1 cs = Inr (rs', m')" and rs: "rs = r # rs'"
    unfolding getIndexReferences_Cons by blast
  note step = getIndexReferenceTo_step [OF Cons.prems(1) call]
  from step have ok1: "maker_ok m1" and le1: "?memo m \<subseteq>\<^sub>m ?memo m1"
    and reg1: "0 < entries r \<Longrightarrow> ?memo m1 (fst (fst c)) = Some r"
    and dom1: "dom (?memo m1) = dom (?memo m) \<union> (if 0 < entries r then {fst (fst c)} else {})"
    by blast+
  note ih = Cons.IH [OF ok1 rest]
  from ih have ok': "maker_ok m'" and le': "?memo m1 \<subseteq>\<^sub>m ?memo m'"
    and len': "length rs' = length cs"
    and reg': "\<And>k. k < length cs \<Longrightarrow> 0 < entries (rs' ! k) \<Longrightarrow>
           ?memo m' (fst (fst (cs ! k))) = Some (rs' ! k)"
    and hit': "\<And>k r. k < length cs \<Longrightarrow> ?memo m1 (fst (fst (cs ! k))) = Some r \<Longrightarrow> rs' ! k = r"
    and same': "\<And>a b. a \<le> b \<Longrightarrow> b < length cs \<Longrightarrow> fst (fst (cs ! a)) = fst (fst (cs ! b))
           \<Longrightarrow> 0 < entries (rs' ! a) \<Longrightarrow> rs' ! b = rs' ! a"
    and dom': "dom (?memo m') = dom (?memo m1)
             \<union> {fst (fst (cs ! k)) | k. k < length cs \<and> 0 < entries (rs' ! k)}"
    by blast+
  have le: "?memo m \<subseteq>\<^sub>m ?memo m'"
    using le1 le' by (rule map_le_trans)
  have mono1: "?memo m' i = Some x" if "?memo m1 i = Some x" for i x
    using le' that by (metis domI map_le_def)
  have mono0: "?memo m1 i = Some x" if "?memo m i = Some x" for i x
    using le1 that by (metis domI map_le_def)
  have reg: "?memo m' (fst (fst ((c # cs) ! k))) = Some (rs ! k)"
    if "k < length (c # cs)" "0 < entries (rs ! k)" for k
  proof (cases k)
    case 0
    with that rs reg1 mono1 show ?thesis by simp
  next
    case (Suc k')
    with that rs reg' show ?thesis by simp
  qed
  have hit: "rs ! k = x" if "k < length (c # cs)" "?memo m (fst (fst ((c # cs) ! k))) = Some x" for k x
  proof (cases k)
    case 0
    with that have "?memo m (fst (fst c)) = Some x" by simp
    from getIndexReferenceTo_hit [OF this] call rs 0 show ?thesis by simp
  next
    case (Suc k')
    with that rs hit' mono0 show ?thesis by simp
  qed
  have same: "rs ! b = rs ! a"
    if "a \<le> b" "b < length (c # cs)" "fst (fst ((c # cs) ! a)) = fst (fst ((c # cs) ! b))"
      "0 < entries (rs ! a)" for a b
  proof (cases a)
    case 0
    show ?thesis
    proof (cases b)
      case 0
      with \<open>a = 0\<close> show ?thesis by simp
    next
      case (Suc b')
      from that \<open>a = 0\<close> rs have "?memo m1 (fst (fst c)) = Some r"
        using reg1 by simp
      with that \<open>a = 0\<close> Suc have "?memo m1 (fst (fst (cs ! b'))) = Some r" by simp
      with hit' [of b' r] that Suc rs \<open>a = 0\<close> show ?thesis by simp
    qed
  next
    case (Suc a')
    with that obtain b' where "b = Suc b'" by (cases b) auto
    with that Suc rs same' [of a' b'] show ?thesis by simp
  qed
  have dom: "dom (?memo m') = dom (?memo m)
      \<union> {fst (fst ((c # cs) ! k)) | k. k < length (c # cs) \<and> 0 < entries (rs ! k)}"
  proof -
    have "{fst (fst ((c # cs) ! k)) | k. k < length (c # cs) \<and> 0 < entries (rs ! k)}
        = (if 0 < entries r then {fst (fst c)} else {})
          \<union> {fst (fst (cs ! k)) | k. k < length cs \<and> 0 < entries (rs' ! k)}"
      (is "?L = ?R")
    proof (intro set_eqI iffI)
      fix x assume "x \<in> ?L"
      then obtain k where k: "x = fst (fst ((c # cs) ! k))" "k < length (c # cs)"
        "0 < entries (rs ! k)" by blast
      then show "x \<in> ?R" using rs by (cases k) auto
    next
      fix x assume "x \<in> ?R"
      then consider "0 < entries r" "x = fst (fst c)"
        | k where "x = fst (fst (cs ! k))" "k < length cs" "0 < entries (rs' ! k)"
        by (auto split: if_splits)
      then show "x \<in> ?L"
      proof cases
        case 1
        then have "x = fst (fst ((c # cs) ! 0)) \<and> 0 < length (c # cs) \<and> 0 < entries (rs ! 0)"
          using rs by simp
        then show ?thesis by blast
      next
        case 2
        then have "x = fst (fst ((c # cs) ! Suc k)) \<and> Suc k < length (c # cs)
            \<and> 0 < entries (rs ! Suc k)"
          using rs by simp
        then show ?thesis by blast
      qed
    qed
    with dom' dom1 show ?thesis by auto
  qed
  from ok' le len' rs reg hit same dom show ?case
    by (simp only: length_Cons) blast
qed

text \<open>
  Claim C2, as the code has it. Take any run of \<open>getIndexReferenceTo\<close> calls on a fresh
  index maker that does not raise, and a call \<open>a\<close> whose object counts at least one
  instance, so that the Reference record returned has \<open>entries > 0\<close>. Every later call
  for the same object, and every call for it that returns \<open>entries > 0\<close>, returns the same
  Reference record. A call for a different object that returns \<open>entries > 0\<close> returns a
  different index, also when the two objects have equal values. The section list has one
  section per object for which some call returned \<open>entries > 0\<close>, and the record of call
  \<open>a\<close> points to a section of the list whose index entry repeats its entry count.
\<close>

theorem getIndexReferenceTo_identity_sharing:
  assumes run: "getIndexReferences IndexMaker_init calls = Inr (refs, m)"
    and a: "a < length calls" and b: "b < length calls"
    and nonempty: "0 < entries (refs ! a)"
  shows "((a \<le> b \<or> 0 < entries (refs ! b))
            \<and> fst (fst (calls ! b)) = fst (fst (calls ! a)) \<longrightarrow> refs ! b = refs ! a)
       \<and> (0 < entries (refs ! b) \<and> fst (fst (calls ! b)) \<noteq> fst (fst (calls ! a)) \<longrightarrow>
            index (refs ! b) \<noteq> index (refs ! a))
       \<and> length (sections_m m)
           = card {fst (fst (calls ! k)) | k. k < length calls \<and> 0 < entries (refs ! k)}
       \<and> 0 \<le> index (refs ! a) \<and> index (refs ! a) < int (length (sections_m m))
       \<and> repetitions (indexEntry (sections_m m ! nat (index (refs ! a)))) = entries (refs ! a)"
proof -
  let ?memo = "objectsIdToIndexReferenceMap"
  let ?oid = "\<lambda>k. fst (fst (calls ! k))"
  note facts = getIndexReferences_run [OF maker_ok_init run]
  from facts have ok: "maker_ok m"
    and reg: "\<And>k. k < length calls \<Longrightarrow> 0 < entries (refs ! k) \<Longrightarrow> ?memo m (?oid k) = Some (refs ! k)"
    and same: "\<And>a b. a \<le> b \<Longrightarrow> b < length calls \<Longrightarrow> ?oid a = ?oid b \<Longrightarrow> 0 < entries (refs ! a)
        \<Longrightarrow> refs ! b = refs ! a"
    and dom: "dom (?memo m) = dom (?memo IndexMaker_init)
        \<union> {?oid k | k. k < length calls \<and> 0 < entries (refs ! k)}"
    by blast+
  from ok have n: "nextFreeIndexPosition m = int (length (sections_m m))"
    and old: "\<And>i r. ?memo m i = Some r \<Longrightarrow>
          0 < entries r \<and> 0 \<le> index r \<and> index r < nextFreeIndexPosition m
          \<and> repetitions (indexEntry (sections_m m ! nat (index r))) = entries r"
    and inj: "\<And>i j r r'. ?memo m i = Some r \<Longrightarrow> ?memo m j = Some r' \<Longrightarrow> index r = index r'
          \<Longrightarrow> i = j"
    and crd: "card (dom (?memo m)) = length (sections_m m)"
    unfolding maker_ok_def by blast+
  note ma = reg [OF a nonempty]
  have 1: "refs ! b = refs ! a"
    if "a \<le> b \<or> 0 < entries (refs ! b)" "?oid b = ?oid a"
  proof (cases "a \<le> b")
    case True
    with same [of a b] b that nonempty show ?thesis by simp
  next
    case False
    with that have "0 < entries (refs ! b)" by simp
    from reg [OF b this] ma that(2) show ?thesis by simp
  qed
  have 2: "index (refs ! b) \<noteq> index (refs ! a)"
    if "0 < entries (refs ! b)" "?oid b \<noteq> ?oid a"
    using inj [OF reg [OF b that(1)] ma] that(2) by blast
  have 3: "length (sections_m m)
      = card {?oid k | k. k < length calls \<and> 0 < entries (refs ! k)}"
    using crd dom by (simp add: IndexMaker_init_def)
  from old [OF ma] n 1 2 3 show ?thesis by simp
qed

theorem getIndexReferenceTo_identity_sharing_witness:
  "getIndexReferences IndexMaker_init exampleSharedCalls
     = Inr ([\<lparr> entries = 3, index = 0, flags = 0 \<rparr>,
             \<lparr> entries = 3, index = 1, flags = 0 \<rparr>,
             \<lparr> entries = 3, index = 0, flags = 0 \<rparr>],
            \<lparr> objectsIdToIndexReferenceMap =
                [1 \<mapsto> \<lparr> entries = 3, index = 0, flags = 0 \<rparr>,
                 2 \<mapsto> \<lparr> entries = 3, index = 1, flags = 0 \<rparr>],
              offset_m = 32, nextFreeIndexPosition = 2,
              sections_m = [exampleBoneSection 0, exampleBoneSection 16] \<rparr>)
   \<and> card {fst (fst (exampleSharedCalls ! k)) | k. k < length exampleSharedCalls} = 2"
proof -
  let ?refs = "[\<lparr> entries = 3, index = 0, flags = 0 \<rparr>,
             \<lparr> entries = 3, index = 1, flags = 0 \<rparr>,
             \<lparr> entries = 3, index = 0, flags = 0 \<rparr>]"
  let ?m = "\<lparr> objectsIdToIndexReferenceMap =
                [1 \<mapsto> \<lparr> entries = 3, index = 0, flags = 0 \<rparr>,
                 2 \<mapsto> \<lparr> entries = 3, index = 1, flags = 0 \<rparr>],
              offset_m = 32, nextFreeIndexPosition = 2,
              sections_m = [exampleBoneSection 0, exampleBoneSection 16] \<rparr>"
  have run: "getIndexReferences IndexMaker_init exampleSharedCalls = Inr (?refs, ?m)"
    by (simp add: exampleSharedCalls_def IndexMaker_init_def getIndexReferenceTo_def
        countInstances_def bytesRequiredForContent_def countBytesRequiredForInstances_def
        exampleDescription_def exampleBones_def exampleReference_def exampleBoneSection_def
        increaseToValidSectionSize_def Let_def)
  have l: "length exampleSharedCalls = 3"
    by (simp add: exampleSharedCalls_def)
  have e: "{fst (fst (exampleSharedCalls ! k)) | k. k < length exampleSharedCalls
              \<and> 0 < entries (?refs ! k)}
      = {fst (fst (exampleSharedCalls ! k)) | k. k < length exampleSharedCalls}"
    by (auto simp: l less_Suc_eq numeral_3_eq_3)
  from getIndexReferenceTo_identity_sharing [OF run, of 0 2] l e
  have "card {fst (fst (exampleSharedCalls ! k)) | k. k < length exampleSharedCalls} = 2"
    by simp
  with run show ?thesis by simp
qed

text \<open>
  Claim C2 as stated fails for an object that counts no instance. An empty list gets
  \<open>entries = 0\<close> and the next free index at the time of the call, it is not remembered, and
  no section is appended for it: handed over before and after another object got its
  section, the same empty list gets the indices 0 and 1, and the one section of the list
  belongs to the other object.
\<close>

theorem getIndexReferenceTo_identity_sharing_counterexample:
  "getIndexReferences IndexMaker_init exampleEmptyCalls
     = Inr ([\<lparr> entries = 0, index = 0, flags = 0 \<rparr>,
             \<lparr> entries = 3, index = 0, flags = 0 \<rparr>,
             \<lparr> entries = 0, index = 1, flags = 0 \<rparr>],
            \<lparr> objectsIdToIndexReferenceMap = [2 \<mapsto> \<lparr> entries = 3, index = 0, flags = 0 \<rparr>],
              offset_m = 16, nextFreeIndexPosition = 1,
              sections_m = [exampleBoneSection 0] \<rparr>)
   \<and> fst (fst (exampleEmptyCalls ! 0)) = fst (fst (exampleEmptyCalls ! 2))
   \<and> snd (fst (exampleEmptyCalls ! 0)) = snd (fst (exampleEmptyCalls ! 2))"
  by (simp add: exampleEmptyCalls_def IndexMaker_init_def getIndexReferenceTo_def
      countInstances_def bytesRequiredForContent_def countBytesRequiredForInstances_def
      exampleDescription_def exampleBones_def exampleReference_def exampleBoneSection_def
      increaseToValidSectionSize_def Let_def)

end
